theory Spec2Isabelle
  imports Main "HOL-Library.Multiset"
begin

section \<open>The milestone engine of the basketball journal (docs/app.js)\<close>

text \<open>
  This theory embeds \<^verbatim>\<open>computeGameMilestones\<close> and the helpers it calls
  (\<^verbatim>\<open>getTeamConference\<close>, \<^verbatim>\<open>getGameConference\<close>) as executable
  HOL functions and proves properties of the badge stream they produce.

  Conventions of the embedding.
  \<^item> A JSON field that may be missing is an \<open>option\<close>: \<open>None\<close> is JavaScript's
    \<^verbatim>\<open>undefined\<close>. The source reads such fields as \<^verbatim>\<open>x || default\<close>, which
    is \<open>or_str\<close> below: a missing and an empty string both give the default.
  \<^item> The gender of a game is one of the two letters the data model allows, \<open>Men\<close> for
    \<^verbatim>\<open>'M'\<close> and \<open>Women\<close> for \<^verbatim>\<open>'W'\<close>; the keys that the source builds by string
    concatenation are built the same way here, from \<open>gender_str\<close>.
  \<^item> A plain object used as a dictionary is a map from its own keys, read through
    functions that also account for the members it inherits from
    \<^verbatim>\<open>Object.prototype\<close> (such as \<^verbatim>\<open>constructor\<close>) wherever a key of the object can
    be such a name. A \<^verbatim>\<open>Set\<close> is the list of its elements in insertion order.
  \<^item> A badge object \<^verbatim>\<open>{type, text, title}\<close> is a constructor of \<open>badge\<close> named after its
    \<^verbatim>\<open>type\<close>, carrying the values that the source interpolates into \<^verbatim>\<open>text\<close> and
    \<^verbatim>\<open>title\<close>.
  \<^item> What the language standard leaves to the host is a parameter, carried by the record
    \<open>DATA\<close> beside the page's data: the collation behind
    \<^verbatim>\<open>String.prototype.localeCompare\<close>, the result of \<^verbatim>\<open>new Date\<close> on a string
    that is not a calendar date in the ISO form, and the source text printed for a
    built-in function.
  \<^item> The functions follow a pass that runs through. The three places where a pass ends
    in a \<^verbatim>\<open>TypeError\<close> instead are listed with the predicate \<open>runs_through\<close>.
\<close>

subsection \<open>Data model\<close>

datatype gender = Men | Women

record game =
  GameID :: "string option"
  DateSort :: "string option"
  TimeSort :: "string option"
  Gender :: "gender option"
  Division :: "string option"
  AwayTeam :: "string option"
  HomeTeam :: "string option"
  AwayScore :: "int option"
  HomeScore :: "int option"
  Venue :: "string option"
  City :: "string option"
  State :: "string option"
  AwayConf :: "string option"
  HomeConf :: "string option"

record player_game =
  pg_game_id :: "string option"
  pg_player_id :: "string option"
  pg_player :: "string option"
  pg_team :: "string option"
  pg_realgm_previous_schools :: "string list"
  pg_date_yyyymmdd :: "string option"

record checklist_team =
  ct_team :: "string option"
  ct_name :: "string option"

record conf_data =
  cd_teams :: "checklist_team list"
  cd_totalTeams :: nat

record team_row =
  tr_Team :: "string option"
  tr_Conference :: "string option"

text \<open>
  The global \<^verbatim>\<open>DATA\<close>, where an object that the source reads by
  \<^verbatim>\<open>Object.entries\<close> is the list of its entries, and what the host decides: \<open>localeCompare d a b\<close> is
  \<^verbatim>\<open>a.localeCompare(b)\<close>; \<open>Date_other d s\<close> is the time value of \<^verbatim>\<open>new Date(s)\<close>,
  \<open>None\<close> for \<^verbatim>\<open>NaN\<close>, for a string \<open>s\<close> that is not a calendar date in the ISO form;
  \<open>native_code d m\<close> is what follows the keyword \<^verbatim>\<open>function\<close> in the source text that
  the host prints for the built-in function \<^verbatim>\<open>Object.prototype[m]\<close>.
\<close>

record DATA =
  games :: "game list"
  conferenceChecklist :: "(string \<times> conf_data) list"
  teams :: "team_row list"
  teamAliases :: "(string \<times> string) list"
  playerGames :: "player_game list"
  localeCompare :: "string \<Rightarrow> string \<Rightarrow> int"
  Date_other :: "string \<Rightarrow> int option"
  native_code :: "string \<Rightarrow> string"

datatype badge =
    GameCount nat
  | D1Game nat
  | Streak nat
  | NewState string nat
  | VenueCount nat string
  | VenueVisit string nat
  | NewTeam string gender
  | D1Team nat gender
  | TeamVisit string nat gender
  | NewConf string
  | ConfComplete string gender nat
  | NewMatchup string string gender
  | ConfMatchup string string
  | Transfer "string option" "string list" string

subsection \<open>JavaScript primitives\<close>

definition or_str :: "string option \<Rightarrow> string \<Rightarrow> string" where
  "or_str v d = (case v of None \<Rightarrow> d | Some s \<Rightarrow> if s = [] then d else s)"

definition or_gender :: "gender option \<Rightarrow> gender" where
  "or_gender v = (case v of None \<Rightarrow> Men | Some g \<Rightarrow> g)"

definition or_int :: "int option \<Rightarrow> int" where
  "or_int v = (case v of None \<Rightarrow> 0 | Some n \<Rightarrow> n)"

definition truthy :: "string option \<Rightarrow> bool" where
  "truthy v = (case v of None \<Rightarrow> False | Some s \<Rightarrow> s \<noteq> [])"

fun gender_str :: "gender \<Rightarrow> string" where
  "gender_str Men = ''M''"
| "gender_str Women = ''W''"

text \<open>
  Comparison of two strings by code units, with the sign as the result: the order of
  \<^verbatim>\<open><\<close> on strings and of \<^verbatim>\<open>Array.prototype.sort\<close> without a comparator.
\<close>

fun code_unit_compare :: "string \<Rightarrow> string \<Rightarrow> int" where
  "code_unit_compare [] [] = 0"
| "code_unit_compare [] (y # ys) = - 1"
| "code_unit_compare (x # xs) [] = 1"
| "code_unit_compare (x # xs) (y # ys) =
     (if (of_char x :: nat) < of_char y then - 1
      else if (of_char y :: nat) < of_char x then 1
      else code_unit_compare xs ys)"

definition str_less :: "string \<Rightarrow> string \<Rightarrow> bool" where
  "str_less a b = (code_unit_compare a b < 0)"

text \<open>\<^verbatim>\<open>s.slice(a, b)\<close> for \<open>0 \<le> a \<le> b\<close>.\<close>

definition slice :: "string \<Rightarrow> nat \<Rightarrow> nat \<Rightarrow> string" where
  "slice s a b = take (b - a) (drop a s)"

text \<open>The decimal numeral of an index, as a template literal prints it.\<close>

definition digit_char :: "nat \<Rightarrow> char" where
  "digit_char n = char_of (48 + n)"

fun nat_str :: "nat \<Rightarrow> string" where
  "nat_str n = (if n < 10 then [digit_char n] else nat_str (n div 10) @ [digit_char (n mod 10)])"

declare nat_str.simps [simp del]

text \<open>A \<^verbatim>\<open>Set\<close>: \<^verbatim>\<open>add\<close> appends an element that is not yet a member.\<close>

definition set_add :: "'a \<Rightarrow> 'a list \<Rightarrow> 'a list" where
  "set_add x xs = (if x \<in> set xs then xs else xs @ [x])"

text \<open>A table of numbers under its own keys, a missing entry read as \<open>0\<close>.\<close>

definition count_of :: "(string \<rightharpoonup> nat) \<Rightarrow> string \<Rightarrow> nat" where
  "count_of m k = (case m k of None \<Rightarrow> 0 | Some n \<Rightarrow> n)"

subsection \<open>Plain objects as counters\<close>

text \<open>
  An object created by \<^verbatim>\<open>{}\<close> inherits the members of \<^verbatim>\<open>Object.prototype\<close>.
  Reading a key that the object does not own gives the inherited member when the key is
  one of these names: a function, or the prototype itself for \<^verbatim>\<open>__proto__\<close>. Such a
  value is truthy and its number value is \<^verbatim>\<open>NaN\<close>. Assigning to a key creates an own
  property, except that assigning a number to \<^verbatim>\<open>__proto__\<close> stores nothing.
\<close>

definition proto_members :: "string list" where
  "proto_members =
     [''constructor'', ''__defineGetter__'', ''__defineSetter__'', ''hasOwnProperty'',
      ''__lookupGetter__'', ''__lookupSetter__'', ''isPrototypeOf'', ''propertyIsEnumerable'',
      ''toString'', ''valueOf'', ''__proto__'', ''toLocaleString'']"

definition inherited :: "string \<Rightarrow> bool" where
  "inherited k = (k \<in> set proto_members)"

datatype jsnum = Num nat | NaN

type_synonym counters = "string \<rightharpoonup> jsnum"

text \<open>\<^verbatim>\<open>!obj[k]\<close>: a missing entry that is not inherited, \<open>0\<close> and \<^verbatim>\<open>NaN\<close> are falsy.\<close>

definition falsy_count :: "counters \<Rightarrow> string \<Rightarrow> bool" where
  "falsy_count m k =
     (case m k of None \<Rightarrow> \<not> inherited k | Some NaN \<Rightarrow> True | Some (Num n) \<Rightarrow> n = 0)"

text \<open>
  \<^verbatim>\<open>obj[k] = v\<close> for a number \<open>v\<close>: an object that does not own \<^verbatim>\<open>__proto__\<close>
  hands the assignment to the inherited setter, which ignores a number.
\<close>

definition assign :: "(string \<rightharpoonup> 'a) \<Rightarrow> string \<Rightarrow> 'a \<Rightarrow> (string \<rightharpoonup> 'a)" where
  "assign m k v = (if k = ''__proto__'' \<and> m k = None then m else m(k \<mapsto> v))"

text \<open>\<^verbatim>\<open>obj[k]++\<close>: everything but an own number has the number value \<^verbatim>\<open>NaN\<close>.\<close>

definition increment :: "counters \<Rightarrow> string \<Rightarrow> counters" where
  "increment m k = assign m k (case m k of Some (Num n) \<Rightarrow> Num (n + 1) | _ \<Rightarrow> NaN)"

text \<open>The number under a key, \<open>0\<close> where there is none.\<close>

definition visits :: "counters \<Rightarrow> string \<Rightarrow> nat" where
  "visits m k = (case m k of Some (Num n) \<Rightarrow> n | _ \<Rightarrow> 0)"

text \<open>
  \<^verbatim>\<open>obj[k] > 1 && list.includes(obj[k])\<close>: false for \<^verbatim>\<open>NaN\<close> and for an inherited
  member.
\<close>

definition milestone_hit :: "nat list \<Rightarrow> counters \<Rightarrow> string \<Rightarrow> bool" where
  "milestone_hit ms m k = (case m k of Some (Num n) \<Rightarrow> 1 < n \<and> n \<in> set ms | _ \<Rightarrow> False)"

subsection \<open>The order of the processed stream\<close>

text \<open>The comparator of the sort; \<open>lc\<close> is \<^verbatim>\<open>localeCompare\<close>.\<close>

definition game_cmp :: "(string \<Rightarrow> string \<Rightarrow> int) \<Rightarrow> game \<Rightarrow> game \<Rightarrow> int" where
  "game_cmp lc a b =
    (let dateA = or_str (DateSort a) [];
         dateB = or_str (DateSort b) [];
         dateCompare = lc dateA dateB
     in if dateCompare \<noteq> 0 then dateCompare
        else
          let timeA = or_str (TimeSort a) [];
              timeB = or_str (TimeSort b) []
          in if timeA \<noteq> [] \<and> timeB \<noteq> [] \<and> timeA \<noteq> timeB then lc timeA timeB
             else
               let genderA = or_gender (Gender a);
                   genderB = or_gender (Gender b)
               in if genderA \<noteq> genderB then (if genderA = Women then - 1 else 1)
                  else lc (or_str (GameID a) []) (or_str (GameID b) []))"

text \<open>
  \<^verbatim>\<open>Array.prototype.sort\<close> is stable, and every stable sort gives the same result when
  the comparator is consistent on the array: the result of the stable insertion sort
  below. For an inconsistent comparator the standard leaves the order to the
  implementation; no statement of this theory about all inputs depends on it there.
\<close>

fun insert_game :: "(string \<Rightarrow> string \<Rightarrow> int) \<Rightarrow> game \<Rightarrow> game list \<Rightarrow> game list" where
  "insert_game lc g [] = [g]"
| "insert_game lc g (h # hs) =
     (if game_cmp lc g h \<le> 0 then g # h # hs else h # insert_game lc g hs)"

fun sort_games :: "(string \<Rightarrow> string \<Rightarrow> int) \<Rightarrow> game list \<Rightarrow> game list" where
  "sort_games lc [] = []"
| "sort_games lc (g # gs) = insert_game lc g (sort_games lc gs)"

text \<open>
  The order of two games as the specification words it, on the four keys: the date; then
  the tip-off time when both games have one and the two differ; then the gender, women
  first; then the id.
\<close>

definition precedes :: "(string \<Rightarrow> string \<Rightarrow> int) \<Rightarrow> game \<Rightarrow> game \<Rightarrow> bool" where
  "precedes lc a b =
    (lc (or_str (DateSort a) []) (or_str (DateSort b) []) < 0
     \<or> (lc (or_str (DateSort a) []) (or_str (DateSort b) []) = 0
         \<and> (if or_str (TimeSort a) [] \<noteq> [] \<and> or_str (TimeSort b) [] \<noteq> []
                \<and> or_str (TimeSort a) [] \<noteq> or_str (TimeSort b) []
             then lc (or_str (TimeSort a) []) (or_str (TimeSort b) []) \<le> 0
             else if or_gender (Gender a) \<noteq> or_gender (Gender b)
             then or_gender (Gender a) = Women
             else lc (or_str (GameID a) []) (or_str (GameID b) []) \<le> 0)))"

text \<open>Every earlier game of a list precedes every later one.\<close>

fun before_all :: "(string \<Rightarrow> string \<Rightarrow> int) \<Rightarrow> game \<Rightarrow> game list \<Rightarrow> bool" where
  "before_all lc g [] = True"
| "before_all lc g (h # hs) = (precedes lc g h \<and> before_all lc g hs)"

fun in_order :: "(string \<Rightarrow> string \<Rightarrow> int) \<Rightarrow> game list \<Rightarrow> bool" where
  "in_order lc [] = True"
| "in_order lc (g # gs) = (before_all lc g gs \<and> in_order lc gs)"

subsection \<open>Calendar dates\<close>

text \<open>
  \<^verbatim>\<open>new Date(s)\<close> on the date-only form \<^verbatim>\<open>YYYY-MM-DD\<close> of a calendar day is
  midnight UTC of that day, as a number of milliseconds since the epoch, by the day
  arithmetic of the language standard: this is \<open>new_Date\<close>, which is \<open>None\<close> on every
  other string. For those the standard leaves the result to the implementation, and
  \<open>host_Date\<close> takes it from the host.
\<close>

definition digit_val :: "char \<Rightarrow> nat option" where
  "digit_val c =
    (let n = (of_char c :: nat) in if 48 \<le> n \<and> n \<le> 57 then Some (n - 48) else None)"

fun digits_val :: "nat \<Rightarrow> string \<Rightarrow> nat option" where
  "digits_val acc [] = Some acc"
| "digits_val acc (c # cs) =
     (case digit_val c of None \<Rightarrow> None | Some v \<Rightarrow> digits_val (10 * acc + v) cs)"

definition InLeapYear :: "int \<Rightarrow> bool" where
  "InLeapYear y = (y mod 4 = 0 \<and> (y mod 100 \<noteq> 0 \<or> y mod 400 = 0))"

definition DayFromYear :: "int \<Rightarrow> int" where
  "DayFromYear y =
     365 * (y - 1970) + (y - 1969) div 4 - (y - 1901) div 100 + (y - 1601) div 400"

definition month_lengths :: "int \<Rightarrow> int list" where
  "month_lengths y =
     [31, if InLeapYear y then 29 else 28, 31, 30, 31, 30, 31, 31, 30, 31, 30, 31]"

definition MakeDay :: "int \<Rightarrow> nat \<Rightarrow> int \<Rightarrow> int" where
  "MakeDay y m dt = DayFromYear y + sum_list (take (m - 1) (month_lengths y)) + dt - 1"

definition msPerDay :: int where
  "msPerDay = 1000 * 60 * 60 * 24"

definition new_Date :: "string \<Rightarrow> int option" where
  "new_Date s =
    (if length s = 10 \<and> s ! 4 = CHR ''-'' \<and> s ! 7 = CHR ''-'' then
       (case (digits_val 0 (take 4 s), digits_val 0 (take 2 (drop 5 s)), digits_val 0 (drop 8 s)) of
          (Some y, Some m, Some dt) \<Rightarrow>
            if 1 \<le> m \<and> m \<le> 12 \<and> 1 \<le> dt \<and> int dt \<le> month_lengths (int y) ! (m - 1)
            then Some (MakeDay (int y) m (int dt) * msPerDay)
            else None
        | _ \<Rightarrow> None)
     else None)"

definition host_Date :: "DATA \<Rightarrow> string \<Rightarrow> int option" where
  "host_Date d s = (case new_Date s of Some t \<Rightarrow> Some t | None \<Rightarrow> Date_other d s)"

text \<open>The string handed to \<^verbatim>\<open>new Date\<close>: three slices joined by dashes.\<close>

definition dashed :: "string \<Rightarrow> string" where
  "dashed s = slice s 0 4 @ ''-'' @ slice s 4 6 @ ''-'' @ slice s 6 8"

text \<open>
  \<^verbatim>\<open>Math.round((thisDate - lastDate) / msPerDay)\<close>: \<open>None\<close> when either date is
  invalid, else the quotient rounded to the nearest integer, halves upwards.
\<close>

definition diff_days :: "int option \<Rightarrow> int option \<Rightarrow> int option" where
  "diff_days thisDate lastDate =
    (case (thisDate, lastDate) of
       (Some t, Some l) \<Rightarrow> Some ((2 * (t - l) + msPerDay) div (2 * msPerDay))
     | _ \<Rightarrow> None)"

subsection \<open>Rolling state\<close>

record mstate =
  teamCounts :: counters
  teamRecords :: "string \<rightharpoonup> nat \<times> nat"
  venueCounts :: counters
  matchupsSeen :: "string set"
  confMatchupCounts :: counters
  confTeamCounts :: counters
  playerTeams :: "string \<rightharpoonup> string option \<times> string list"
  venueOrder :: "string list"
  confTeamsSeen :: "string \<rightharpoonup> string list"
  confVenuesSeen :: "string set"
  confCompleted :: "string set"
  statesSeen :: "string list"
  stateOrder :: "string list"
  currentStreak :: nat
  lastGameDate :: "string option"
  maxStreak :: nat
  streakHistory :: "nat list"
  gameCount :: nat
  d1GameCount :: nat
  d1VenueCount :: nat
  d1VenuesSeen :: "string list"
  d1TeamsSeen :: "gender \<Rightarrow> string list"
  badges :: "badge list"

definition init_state :: mstate where
  "init_state =
    \<lparr> teamCounts = Map.empty, teamRecords = Map.empty, venueCounts = Map.empty,
      matchupsSeen = {}, confMatchupCounts = Map.empty, confTeamCounts = Map.empty,
      playerTeams = Map.empty, venueOrder = [], confTeamsSeen = Map.empty,
      confVenuesSeen = {}, confCompleted = {}, statesSeen = [], stateOrder = [],
      currentStreak = 0, lastGameDate = None, maxStreak = 0, streakHistory = [],
      gameCount = 0, d1GameCount = 0, d1VenueCount = 0, d1VenuesSeen = [],
      d1TeamsSeen = (\<lambda>g. []), badges = [] \<rparr>"

definition push :: "badge \<Rightarrow> mstate \<Rightarrow> mstate" where
  "push b s = s\<lparr>badges := badges s @ [b]\<rparr>"

definition MILESTONE_COUNTS :: "nat list" where
  "MILESTONE_COUNTS = [1, 5, 10, 15, 20, 25, 30, 35, 40, 45, 50, 75, 100, 150, 200]"

definition GAME_MILESTONES :: "nat list" where
  "GAME_MILESTONES = [1, 10, 25, 50, 75, 100, 150, 200, 250, 500]"

definition D1_MILESTONES :: "nat list" where
  "D1_MILESTONES = [1, 10, 25, 50, 75, 100, 150, 200, 250, 500]"

definition D1_TEAM_MILESTONES :: "nat list" where
  "D1_TEAM_MILESTONES =
     [5, 10, 15, 20, 25, 30, 35, 40, 45, 50, 55, 60, 65, 70, 75, 80, 85, 90, 95, 100]"

subsection \<open>Conference lookup\<close>

definition DEFUNCT_TEAM_CONFERENCES :: "(string \<times> string) list" where
  "DEFUNCT_TEAM_CONFERENCES = [(''St. Francis (NY)'', ''NEC'')]"

definition lists_team :: "string \<Rightarrow> conf_data \<Rightarrow> bool" where
  "lists_team teamName confData =
     list_ex (\<lambda>t. ct_team t = Some teamName \<or> ct_name t = Some teamName) (cd_teams confData)"

text \<open>
  The result of a conference lookup: a string, or the member of \<^verbatim>\<open>Object.prototype\<close>
  that \<^verbatim>\<open>DEFUNCT_TEAM_CONFERENCES[teamName]\<close> finds when the team name is the name of
  one. Such a member is truthy and equal only to itself; as a string it is
  \<^verbatim>\<open>[object Object]\<close> for the prototype object and the printed source text for a
  function.
\<close>

datatype conf_value = Name string | Member string

definition conf_truthy :: "conf_value \<Rightarrow> bool" where
  "conf_truthy v = (case v of Name c \<Rightarrow> c \<noteq> [] | Member m \<Rightarrow> True)"

definition member_text :: "DATA \<Rightarrow> string \<Rightarrow> string" where
  "member_text d m =
     (if m = ''__proto__'' then ''[object Object]'' else ''function'' @ native_code d m)"

definition conf_text :: "DATA \<Rightarrow> conf_value \<Rightarrow> string" where
  "conf_text d v = (case v of Name c \<Rightarrow> c | Member m \<Rightarrow> member_text d m)"

definition getTeamConference :: "DATA \<Rightarrow> string \<Rightarrow> conf_value" where
  "getTeamConference d teamName =
    (if teamName = [] then Name []
     else case map_of DEFUNCT_TEAM_CONFERENCES teamName of
       Some c \<Rightarrow> Name c
     | None \<Rightarrow>
        if inherited teamName then Member teamName
        else
          (case find (\<lambda>(confName, confData). lists_team teamName confData)
                  (conferenceChecklist d) of
             Some (confName, confData) \<Rightarrow> Name confName
           | None \<Rightarrow>
              (case find (\<lambda>t. tr_Team t = Some teamName \<and> truthy (tr_Conference t)) (teams d) of
                 Some t \<Rightarrow> Name (or_str (tr_Conference t) [])
               | None \<Rightarrow> Name [])))"

definition getGameConference_away :: "DATA \<Rightarrow> game \<Rightarrow> conf_value" where
  "getGameConference_away d g =
    (if truthy (AwayConf g) then Name (or_str (AwayConf g) [])
     else getTeamConference d (or_str (AwayTeam g) []))"

definition getGameConference_home :: "DATA \<Rightarrow> game \<Rightarrow> conf_value" where
  "getGameConference_home d g =
    (if truthy (HomeConf g) then Name (or_str (HomeConf g) [])
     else getTeamConference d (or_str (HomeTeam g) []))"

definition sentinel :: "string \<Rightarrow> bool" where
  "sentinel confName = (confName = ''All D1'' \<or> confName = ''Historical/Other'')"

definition conferenceTeamCounts :: "DATA \<Rightarrow> (string \<rightharpoonup> nat)" where
  "conferenceTeamCounts d =
     fold (\<lambda>(confName, confData) m.
             if sentinel confName then m else assign m confName (cd_totalTeams confData))
          (conferenceChecklist d) Map.empty"

text \<open>
  The alias tables of the set-up. \<^verbatim>\<open>reverseAliases\<close> is read under the canonical names
  and under the names of the roster teams; where such a name is the name of an inherited
  member the pass ends in a \<^verbatim>\<open>TypeError\<close> (see \<open>runs_through\<close> below), so in a pass that
  runs through the table is the map of its own keys.
\<close>

definition reverseAliases :: "DATA \<Rightarrow> (string \<rightharpoonup> string list)" where
  "reverseAliases d =
     fold (\<lambda>(alias, canonical) r.
             let cur = (case r canonical of None \<Rightarrow> [] | Some xs \<Rightarrow> xs)
             in r(canonical \<mapsto> set_add canonical (set_add alias cur)))
          (teamAliases d) Map.empty"

definition add_d1_team :: "DATA \<Rightarrow> checklist_team \<Rightarrow> string list \<Rightarrow> string list" where
  "add_d1_team d t acc =
    (if truthy (ct_team t) then
       let tm = or_str (ct_team t) [];
           acc1 = set_add tm acc;
           acc2 = (case map_of (teamAliases d) tm of
                     Some canonical \<Rightarrow> if canonical \<noteq> [] then set_add canonical acc1 else acc1
                   | None \<Rightarrow> acc1)
       in (case reverseAliases d tm of
             Some aliases \<Rightarrow> fold set_add aliases acc2
           | None \<Rightarrow> acc2)
     else acc)"

definition actualD1Teams :: "DATA \<Rightarrow> string list" where
  "actualD1Teams d =
     fold (\<lambda>(confName, confData) acc.
             if sentinel confName then acc else fold (add_d1_team d) (cd_teams confData) acc)
          (conferenceChecklist d) []"

subsection \<open>The rules of one game\<close>

text \<open>
  Each rule of the loop body is a function on the rolling state. The field \<open>badges\<close>
  is the \<^verbatim>\<open>badges\<close> array of the entry created for the current game; \<open>push\<close>
  appends to it.
\<close>

definition game_count_rule :: "mstate \<Rightarrow> mstate" where
  "game_count_rule s =
    (let s1 = s\<lparr>gameCount := gameCount s + 1\<rparr>
     in if gameCount s1 \<in> set GAME_MILESTONES then push (GameCount (gameCount s1)) s1 else s1)"

definition d1_game_rule :: "string \<Rightarrow> mstate \<Rightarrow> mstate" where
  "d1_game_rule division s =
    (if division = ''D1'' then
       let s1 = s\<lparr>d1GameCount := d1GameCount s + 1\<rparr>
       in if d1GameCount s1 \<in> set D1_MILESTONES then push (D1Game (d1GameCount s1)) s1 else s1
     else s)"

definition streak_update :: "DATA \<Rightarrow> string \<Rightarrow> mstate \<Rightarrow> mstate" where
  "streak_update d dateSort s =
    (if truthy (lastGameDate s) \<and> dateSort \<noteq> [] then
       let lastDate = host_Date d (dashed (or_str (lastGameDate s) []));
           thisDate = host_Date d (dashed dateSort);
           diffDays = diff_days thisDate lastDate
       in if diffDays = Some 0 then s
          else if diffDays = Some 1 then s\<lparr>currentStreak := currentStreak s + 1\<rparr>
          else s\<lparr>streakHistory :=
                    (if 2 \<le> currentStreak s then streakHistory s @ [currentStreak s]
                     else streakHistory s),
                  maxStreak := max (maxStreak s) (currentStreak s),
                  currentStreak := 1\<rparr>
     else s\<lparr>currentStreak := 1\<rparr>)"

definition streak_rule :: "DATA \<Rightarrow> string \<Rightarrow> mstate \<Rightarrow> mstate" where
  "streak_rule d dateSort s =
    (let s1 = streak_update d dateSort s;
         s2 = (if dateSort \<noteq> [] then s1\<lparr>lastGameDate := Some dateSort\<rparr> else s1)
     in if 2 \<le> currentStreak s2 then push (Streak (currentStreak s2)) s2 else s2)"

definition state_rule :: "string \<Rightarrow> mstate \<Rightarrow> mstate" where
  "state_rule st s =
    (if st \<noteq> [] \<and> st \<notin> set (statesSeen s) then
       let s1 = s\<lparr>statesSeen := set_add st (statesSeen s), stateOrder := stateOrder s @ [st]\<rparr>
       in push (NewState st (length (statesSeen s1))) s1
     else s)"

definition venue_new :: "string \<Rightarrow> string \<Rightarrow> mstate \<Rightarrow> mstate" where
  "venue_new division venue s =
    (let s1 = s\<lparr>venueCounts := assign (venueCounts s) venue (Num 0),
                venueOrder := venueOrder s @ [venue]\<rparr>;
         venueNum = length (venueOrder s1);
         s2 = (if venueNum \<in> set MILESTONE_COUNTS then push (VenueCount venueNum venue) s1 else s1)
     in if division = ''D1'' \<and> venue \<notin> set (d1VenuesSeen s2)
        then s2\<lparr>d1VenuesSeen := set_add venue (d1VenuesSeen s2), d1VenueCount := d1VenueCount s2 + 1\<rparr>
        else s2)"

definition venue_rule :: "string \<Rightarrow> string \<Rightarrow> mstate \<Rightarrow> mstate" where
  "venue_rule division venue s =
    (if venue \<noteq> [] then
       let s1 = (if falsy_count (venueCounts s) venue then venue_new division venue s else s);
           s2 = s1\<lparr>venueCounts := increment (venueCounts s1) venue\<rparr>
       in if milestone_hit MILESTONE_COUNTS (venueCounts s2) venue
          then push (VenueVisit venue (visits (venueCounts s2) venue)) s2 else s2
     else s)"

definition team_new :: "DATA \<Rightarrow> gender \<Rightarrow> string \<Rightarrow> string \<Rightarrow> mstate \<Rightarrow> mstate" where
  "team_new d gender tm teamKey s =
    (let s1 = push (NewTeam tm gender) (s\<lparr>teamCounts := assign (teamCounts s) teamKey (Num 0)\<rparr>)
     in if tm \<in> set (actualD1Teams d) then
          let s2 = s1\<lparr>d1TeamsSeen := (d1TeamsSeen s1)(gender := set_add tm (d1TeamsSeen s1 gender))\<rparr>;
              cnt = length (d1TeamsSeen s2 gender)
          in if cnt \<in> set D1_TEAM_MILESTONES then push (D1Team cnt gender) s2 else s2
        else s1)"

definition team_record :: "game \<Rightarrow> string \<Rightarrow> string \<Rightarrow> mstate \<Rightarrow> mstate" where
  "team_record g tm teamKey s =
    (let (wins, losses) = (case teamRecords s teamKey of None \<Rightarrow> (0, 0) | Some r \<Rightarrow> r);
         awayScore = or_int (AwayScore g);
         homeScore = or_int (HomeScore g);
         isWinner = ((tm = or_str (AwayTeam g) [] \<and> awayScore > homeScore)
                     \<or> (tm = or_str (HomeTeam g) [] \<and> homeScore > awayScore))
     in s\<lparr>teamRecords := (teamRecords s)
            (teamKey \<mapsto> (if isWinner then (wins + 1, losses) else (wins, losses + 1)))\<rparr>)"

definition team_rule :: "DATA \<Rightarrow> game \<Rightarrow> gender \<Rightarrow> string \<Rightarrow> mstate \<Rightarrow> mstate" where
  "team_rule d g gender tm s =
    (if tm = [] then s
     else
       let teamKey = tm @ ''|'' @ gender_str gender;
           s1 = (if falsy_count (teamCounts s) teamKey then team_new d gender tm teamKey s else s);
           s2 = s1\<lparr>teamCounts := increment (teamCounts s1) teamKey\<rparr>;
           s3 = (if milestone_hit MILESTONE_COUNTS (teamCounts s2) teamKey
                 then push (TeamVisit tm (visits (teamCounts s2) teamKey) gender) s2 else s2)
       in team_record g tm teamKey s3)"

definition conf_seen :: "mstate \<Rightarrow> string \<Rightarrow> string list" where
  "conf_seen s k = (case confTeamsSeen s k of None \<Rightarrow> [] | Some xs \<Rightarrow> xs)"

text \<open>
  One side of the conference rule; \<open>conf\<close> is the conference as a string, which is how
  the rule uses it: in the two comparisons, in the keys and in the badges. The total is
  read from \<^verbatim>\<open>conferenceTeamCounts\<close>, where an inherited member is not a positive
  number, like a missing entry.
\<close>

definition conf_rule :: "DATA \<Rightarrow> gender \<Rightarrow> string \<Rightarrow> string \<Rightarrow> mstate \<Rightarrow> mstate" where
  "conf_rule d gender conf tm s =
    (if conf = [] \<or> conf = ''Historical/Other'' then s
     else
       let confGenderKey = conf @ ''|'' @ gender_str gender;
           wasNew = (tm \<notin> set (conf_seen s confGenderKey));
           s1 = s\<lparr>confTeamsSeen := (confTeamsSeen s)
                   (confGenderKey \<mapsto> set_add tm (conf_seen s confGenderKey))\<rparr>;
           s2 = (if falsy_count (confTeamCounts s1) conf
                 then push (NewConf conf)
                        (s1\<lparr>confTeamCounts := assign (confTeamCounts s1) conf (Num 0)\<rparr>)
                 else s1);
           s3 = (if wasNew then s2\<lparr>confTeamCounts := increment (confTeamCounts s2) conf\<rparr>
                 else s2);
           totalTeams = count_of (conferenceTeamCounts d) conf
       in if 0 < totalTeams \<and> totalTeams \<le> length (conf_seen s3 confGenderKey)
             \<and> confGenderKey \<notin> confCompleted s3
          then push (ConfComplete conf gender totalTeams)
                 (s3\<lparr>confCompleted := insert confGenderKey (confCompleted s3)\<rparr>)
          else s3)"

text \<open>\<^verbatim>\<open>[awayTeam, homeTeam].sort().join('|')\<close>, the default sort being by code units.\<close>

definition sorted_pair_key :: "string \<Rightarrow> string \<Rightarrow> string" where
  "sorted_pair_key a b = (if str_less b a then b @ ''|'' @ a else a @ ''|'' @ b)"

definition matchup_rule :: "gender \<Rightarrow> string \<Rightarrow> string \<Rightarrow> mstate \<Rightarrow> mstate" where
  "matchup_rule gender awayTeam homeTeam s =
    (if awayTeam \<noteq> [] \<and> homeTeam \<noteq> [] then
       let matchupKey = sorted_pair_key awayTeam homeTeam @ ''|'' @ gender_str gender
       in if matchupKey \<notin> matchupsSeen s
          then push (NewMatchup awayTeam homeTeam gender)
                 (s\<lparr>matchupsSeen := insert matchupKey (matchupsSeen s)\<rparr>)
          else s
     else s)"

text \<open>
  The conference-matchup rule compares the two values with \<^verbatim>\<open>!==\<close> and uses their
  strings in the key and in the badge.
\<close>

definition conf_matchup_rule :: "DATA \<Rightarrow> conf_value \<Rightarrow> conf_value \<Rightarrow> mstate \<Rightarrow> mstate" where
  "conf_matchup_rule d awayConf homeConf s =
    (if conf_truthy awayConf \<and> conf_truthy homeConf \<and> awayConf \<noteq> homeConf then
       let confKey = sorted_pair_key (conf_text d awayConf) (conf_text d homeConf);
           s1 = (if falsy_count (confMatchupCounts s) confKey
                 then push (ConfMatchup (conf_text d awayConf) (conf_text d homeConf))
                        (s\<lparr>confMatchupCounts := assign (confMatchupCounts s) confKey (Num 0)\<rparr>)
                 else s)
       in s1\<lparr>confMatchupCounts := increment (confMatchupCounts s1) confKey\<rparr>
     else s)"

definition conf_venue_rule :: "string \<Rightarrow> string \<Rightarrow> mstate \<Rightarrow> mstate" where
  "conf_venue_rule venue homeConf s =
    (if venue \<noteq> [] \<and> homeConf \<noteq> [] \<and> homeConf \<noteq> ''Historical/Other''
     then s\<lparr>confVenuesSeen := insert (homeConf @ ''|'' @ venue) (confVenuesSeen s)\<rparr>
     else s)"

subsection \<open>Transfers\<close>

text \<open>\<^verbatim>\<open>toLowerCase\<close> on the letters A to Z; other characters are left as they are.\<close>

definition lower_char :: "char \<Rightarrow> char" where
  "lower_char c =
    (let n = (of_char c :: nat) in if 65 \<le> n \<and> n \<le> 90 then char_of (n + 32) else c)"

definition toLowerCase :: "string \<Rightarrow> string" where
  "toLowerCase s = map lower_char s"

text \<open>
  The callback of \<^verbatim>\<open>.some\<close> in the seeding loop. \<open>playerId\<close> is the key of the
  appearance being processed, \<^verbatim>\<open>pg.player_id || pg.player\<close>.
\<close>

definition hasPlayerAtSchoolBefore ::
  "DATA \<Rightarrow> string option \<Rightarrow> string option \<Rightarrow> string \<Rightarrow> string \<Rightarrow> bool" where
  "hasPlayerAtSchoolBefore d playerId playerName currentDateSort prevSchool =
     list_ex (\<lambda>pg2.
        let idMatch = (truthy playerId \<and> pg_player_id pg2 = playerId);
            nameMatch = (\<not> truthy playerId \<and> truthy (pg_player pg2)
                         \<and> toLowerCase (or_str (pg_player pg2) [])
                             = toLowerCase (or_str playerName []))
        in (idMatch \<or> nameMatch)
           \<and> pg_team pg2 = Some prevSchool
           \<and> str_less (or_str (pg_date_yyyymmdd pg2) []) currentDateSort)
       (playerGames d)"

definition seed_schools :: "DATA \<Rightarrow> string option \<Rightarrow> string option \<Rightarrow> string \<Rightarrow> string list \<Rightarrow> string list" where
  "seed_schools d playerId playerName currentDateSort realgmPrevSchools =
     fold (\<lambda>prevSchool acc.
             if hasPlayerAtSchoolBefore d playerId playerName currentDateSort prevSchool
             then set_add prevSchool acc else acc)
          realgmPrevSchools []"

text \<open>
  The record of a player in \<^verbatim>\<open>playerTeams\<close>. A player key that is the name of an
  inherited member ends the pass in a \<^verbatim>\<open>TypeError\<close> (see \<open>runs_through\<close> below), so in
  a pass that runs through the object is the map of its own keys.
\<close>

definition known_schools :: "mstate \<Rightarrow> string \<Rightarrow> string list" where
  "known_schools s k = (case playerTeams s k of None \<Rightarrow> [] | Some (nm, ts) \<Rightarrow> ts)"

definition transfer_rule :: "DATA \<Rightarrow> game \<Rightarrow> player_game \<Rightarrow> mstate \<Rightarrow> mstate" where
  "transfer_rule d g pg s =
    (let playerId = (if truthy (pg_player_id pg) then pg_player_id pg else pg_player pg);
         playerName = pg_player pg;
         playerTeam = pg_team pg;
         realgmPrevSchools = pg_realgm_previous_schools pg
     in if \<not> truthy playerId \<or> \<not> truthy playerTeam then s
        else
          let k = or_str playerId [];
              tm = or_str playerTeam [];
              s1 = (case playerTeams s k of
                      Some e \<Rightarrow> s
                    | None \<Rightarrow>
                        s\<lparr>playerTeams := (playerTeams s)
                            (k \<mapsto> (playerName,
                                   seed_schools d playerId playerName
                                     (or_str (DateSort g) []) realgmPrevSchools))\<rparr>);
              prevTeams = known_schools s1 k;
              s2 = (if prevTeams \<noteq> [] \<and> tm \<notin> set prevTeams
                    then push (Transfer playerName prevTeams tm) s1 else s1)
          in s2\<lparr>playerTeams := (playerTeams s2)
                  (k \<mapsto> (case playerTeams s2 k of
                            None \<Rightarrow> (playerName, [tm])
                          | Some (nm, ts) \<Rightarrow> (nm, set_add tm ts)))\<rparr>)"

subsection \<open>The pass over the stream\<close>

definition gameId_of :: "nat \<Rightarrow> game \<Rightarrow> string" where
  "gameId_of index g = or_str (GameID g) (''game-'' @ nat_str index)"

definition gamePlayers :: "DATA \<Rightarrow> string \<Rightarrow> player_game list" where
  "gamePlayers d gameId = filter (\<lambda>pg. pg_game_id pg = Some gameId) (playerGames d)"

definition process_game :: "DATA \<Rightarrow> nat \<Rightarrow> game \<Rightarrow> mstate \<Rightarrow> mstate" where
  "process_game d index g s =
    (let gameId = gameId_of index g;
         awayTeam = or_str (AwayTeam g) [];
         homeTeam = or_str (HomeTeam g) [];
         venue = or_str (Venue g) [];
         st = or_str (State g) [];
         gender = or_gender (Gender g);
         division = or_str (Division g) ''D1'';
         dateSort = or_str (DateSort g) [];
         awayConf = getGameConference_away d g;
         homeConf = getGameConference_home d g;
         s0 = s\<lparr>badges := []\<rparr>;
         s1 = game_count_rule s0;
         s2 = d1_game_rule division s1;
         s3 = streak_rule d dateSort s2;
         s4 = state_rule st s3;
         s5 = venue_rule division venue s4;
         s6 = team_rule d g gender homeTeam (team_rule d g gender awayTeam s5);
         s7 = conf_rule d gender (conf_text d homeConf) homeTeam
                (conf_rule d gender (conf_text d awayConf) awayTeam s6);
         s8 = matchup_rule gender awayTeam homeTeam s7;
         s9 = conf_matchup_rule d awayConf homeConf s8;
         s10 = conf_venue_rule venue (conf_text d homeConf) s9
     in fold (transfer_rule d g) (gamePlayers d gameId) s10)"

text \<open>
  One entry of \<^verbatim>\<open>gameMilestones\<close>: the game's id, its badges and its
  \<^verbatim>\<open>gameNumber\<close>, in the order in which the loop creates the entries.
\<close>

type_synonym entry = "string \<times> badge list \<times> nat"

definition entry_id :: "entry \<Rightarrow> string" where
  "entry_id e = fst e"

definition entry_badges :: "entry \<Rightarrow> badge list" where
  "entry_badges e = fst (snd e)"

definition entry_number :: "entry \<Rightarrow> nat" where
  "entry_number e = snd (snd e)"

fun run_entries :: "DATA \<Rightarrow> nat \<Rightarrow> game list \<Rightarrow> mstate \<Rightarrow> entry list" where
  "run_entries d index [] s = []"
| "run_entries d index (g # gs) s =
     (let s1 = process_game d index g s
      in (gameId_of index g, badges s1, index + 1) # run_entries d (index + 1) gs s1)"

fun run_state :: "DATA \<Rightarrow> nat \<Rightarrow> game list \<Rightarrow> mstate \<Rightarrow> mstate" where
  "run_state d index [] s = s"
| "run_state d index (g # gs) s = run_state d (index + 1) gs (process_game d index g s)"

definition finalize :: "mstate \<Rightarrow> mstate" where
  "finalize s =
     s\<lparr>streakHistory :=
          (if 2 \<le> currentStreak s then streakHistory s @ [currentStreak s] else streakHistory s),
       maxStreak := max (maxStreak s) (currentStreak s)\<rparr>"

definition milestone_entries :: "DATA \<Rightarrow> entry list" where
  "milestone_entries d = run_entries d 0 (sort_games (localeCompare d) (games d)) init_state"

definition badgeTrackingData :: "DATA \<Rightarrow> mstate" where
  "badgeTrackingData d =
     finalize (run_state d 0 (sort_games (localeCompare d) (games d)) init_state)"

text \<open>
  The pass ends in a \<^verbatim>\<open>TypeError\<close>, which the caller catches, in three places, each a
  read of an inherited member where an object of the pass is expected: the set of
  aliases of a canonical name whose name is inherited (\<^verbatim>\<open>.add\<close>), the aliases of a
  roster team whose name is inherited (\<^verbatim>\<open>.forEach\<close>), and the record of a player whose
  key is inherited (\<^verbatim>\<open>.teams.size\<close>). The functions above follow a pass that runs
  through, and \<open>runs_through\<close> is the condition on the data under which every pass does.
\<close>

definition player_key :: "player_game \<Rightarrow> string" where
  "player_key pg =
     or_str (if truthy (pg_player_id pg) then pg_player_id pg else pg_player pg) []"

definition runs_through :: "DATA \<Rightarrow> bool" where
  "runs_through d =
     (list_all (\<lambda>(alias, canonical). \<not> inherited canonical) (teamAliases d)
      \<and> list_all (\<lambda>(confName, confData).
            sentinel confName
            \<or> list_all (\<lambda>t. \<not> inherited (or_str (ct_team t) [])) (cd_teams confData))
          (conferenceChecklist d)
      \<and> list_all (\<lambda>pg. \<not> inherited (player_key pg)) (playerGames d))"

text \<open>All badges of a list of entries, in the order of emission.\<close>

definition all_badges :: "entry list \<Rightarrow> badge list" where
  "all_badges es = concat (map entry_badges es)"

subsection \<open>Reading the badge stream\<close>

text \<open>The \<^verbatim>\<open>type\<close> field of a badge object.\<close>

fun badge_type :: "badge \<Rightarrow> string" where
  "badge_type (GameCount n) = ''game-count''"
| "badge_type (D1Game n) = ''d1-game''"
| "badge_type (Streak n) = ''streak''"
| "badge_type (NewState st n) = ''new-state''"
| "badge_type (VenueCount n v) = ''venue-count''"
| "badge_type (VenueVisit v n) = ''venue-visit''"
| "badge_type (NewTeam tm g) = ''new-team''"
| "badge_type (D1Team n g) = ''d1-team''"
| "badge_type (TeamVisit tm n g) = ''team-visit''"
| "badge_type (NewConf c) = ''new-conf''"
| "badge_type (ConfComplete c g n) = ''conf-complete''"
| "badge_type (NewMatchup a h g) = ''new-matchup''"
| "badge_type (ConfMatchup a h) = ''conf-matchup''"
| "badge_type (Transfer nm prev tm) = ''transfer''"

definition of_type :: "string \<Rightarrow> badge list \<Rightarrow> badge list" where
  "of_type ty bs = filter (\<lambda>b. badge_type b = ty) bs"

text \<open>The keys of the badges that announce something new.\<close>

fun is_new_state :: "string \<Rightarrow> badge \<Rightarrow> bool" where
  "is_new_state st (NewState st' n) = (st' = st)"
| "is_new_state st b = False"

fun is_new_team :: "string \<Rightarrow> gender \<Rightarrow> badge \<Rightarrow> bool" where
  "is_new_team tm g (NewTeam tm' g') = (tm' = tm \<and> g' = g)"
| "is_new_team tm g b = False"

fun is_new_conf :: "string \<Rightarrow> badge \<Rightarrow> bool" where
  "is_new_conf c (NewConf c') = (c' = c)"
| "is_new_conf c b = False"

fun is_new_matchup :: "string \<Rightarrow> string \<Rightarrow> gender \<Rightarrow> badge \<Rightarrow> bool" where
  "is_new_matchup x y g (NewMatchup a h g') =
     (g' = g \<and> ((a = x \<and> h = y) \<or> (a = y \<and> h = x)))"
| "is_new_matchup x y g b = False"

fun is_conf_complete :: "string \<Rightarrow> gender \<Rightarrow> badge \<Rightarrow> bool" where
  "is_conf_complete c g (ConfComplete c' g' n) = (c' = c \<and> g' = g)"
| "is_conf_complete c g b = False"

definition count_badges :: "(badge \<Rightarrow> bool) \<Rightarrow> entry list \<Rightarrow> nat" where
  "count_badges P es = length (filter P (all_badges es))"

text \<open>The order of the four keys is transitive on the games of a list.\<close>

definition transitive_on :: "(string \<Rightarrow> string \<Rightarrow> int) \<Rightarrow> game list \<Rightarrow> bool" where
  "transitive_on lc gs =
     list_all (\<lambda>a. list_all (\<lambda>b. list_all (\<lambda>c.
         precedes lc a b \<and> precedes lc b c \<longrightarrow> precedes lc a c) gs) gs) gs"

text \<open>
  A collation gives opposite signs to a pair of strings and to the same pair in the
  other order.
\<close>

definition opposite_signs :: "(string \<Rightarrow> string \<Rightarrow> int) \<Rightarrow> bool" where
  "opposite_signs lc = (\<forall>x y. (lc x y < 0) = (0 < lc y x))"

subsection \<open>Concrete inputs\<close>

definition plain_game :: "string \<Rightarrow> string \<Rightarrow> gender \<Rightarrow> string \<Rightarrow> string \<Rightarrow> string \<Rightarrow> game" where
  "plain_game gid dt g away home ven =
    \<lparr> GameID = Some gid, DateSort = Some dt, TimeSort = None, Gender = Some g, Division = None,
      AwayTeam = Some away, HomeTeam = Some home, AwayScore = None, HomeScore = None,
      Venue = Some ven, City = None, State = None, AwayConf = None, HomeConf = None \<rparr>"

text \<open>
  Games with no roster, team table, aliases or player rows, on a host that orders strings
  by their code units, reads no date outside the ISO form, and prints built-in functions
  as \<^verbatim>\<open>function name() { [native code] }\<close>.
\<close>

definition no_tables :: "game list \<Rightarrow> DATA" where
  "no_tables gs =
    \<lparr> games = gs, conferenceChecklist = [], teams = [], teamAliases = [], playerGames = [],
      localeCompare = code_unit_compare, Date_other = (\<lambda>s. None),
      native_code = (\<lambda>m. '' '' @ (if m = ''constructor'' then ''Object'' else m)
                           @ ''() { [native code] }'') \<rparr>"

text \<open>The three games of the end-to-end scenario, all of one gender.\<close>

definition scenario :: "gender \<Rightarrow> DATA" where
  "scenario g = no_tables
     [(plain_game ''g1'' ''20240101'' g ''TeamX'' ''TeamY'' ''Arena1'')
        \<lparr>AwayScore := Some 70, HomeScore := Some 60\<rparr>,
      (plain_game ''g2'' ''20240102'' g ''TeamY'' ''TeamX'' ''Arena2'')
        \<lparr>AwayScore := Some 55, HomeScore := Some 65\<rparr>,
      (plain_game ''g3'' ''20240103'' g ''TeamX'' ''TeamY'' ''Arena1'')
        \<lparr>AwayScore := Some 80, HomeScore := Some 75\<rparr>]"

subsection \<open>Auxiliary definitions for the proofs\<close>

text \<open>The loop body up to the streak rule.\<close>

definition before_streak :: "game \<Rightarrow> mstate \<Rightarrow> mstate" where
  "before_streak g s =
     d1_game_rule (or_str (Division g) ''D1'') (game_count_rule (s\<lparr>badges := []\<rparr>))"




text \<open>The loop body up to the venue rule.\<close>

definition before_venue :: "DATA \<Rightarrow> game \<Rightarrow> mstate \<Rightarrow> mstate" where
  "before_venue d g s =
     state_rule (or_str (State g) [])
       (streak_rule d (or_str (DateSort g) []) (before_streak g s))"

text \<open>Games at one venue, with no \<^verbatim>\<open>Division\<close> field.\<close>

definition hall_game :: game where
  "hall_game = plain_game ''h'' ''20240105'' Men ''P'' ''Q'' ''Hall''"

definition four_hall_games :: "game list" where
  "four_hall_games =
     [plain_game ''a'' ''20240101'' Men ''P'' ''Q'' ''Hall'',
      plain_game ''b'' ''20240102'' Men ''P'' ''R'' ''Hall'',
      plain_game ''c'' ''20240103'' Men ''Q'' ''R'' ''Hall'',
      plain_game ''d'' ''20240104'' Men ''Q'' ''R'' ''Hall'']"

text \<open>
  A player seen at Alpha under a player id, and a year later at Beta in an appearance
  that carries no id and lists Alpha as a previous school.
\<close>

definition pat_games :: DATA where
  "pat_games =
    (no_tables
        [plain_game ''g1'' ''20231101'' Men ''Alpha'' ''Gamma'' ''Hall'',
         plain_game ''g2'' ''20241101'' Men ''Beta'' ''Gamma'' ''Gym''])
    \<lparr> playerGames :=
        [\<lparr> pg_game_id = Some ''g1'', pg_player_id = Some ''pat-smith-1'',
            pg_player = Some ''Pat Smith'', pg_team = Some ''Alpha'',
            pg_realgm_previous_schools = [], pg_date_yyyymmdd = Some ''20231101'' \<rparr>,
         \<lparr> pg_game_id = Some ''g2'', pg_player_id = None,
            pg_player = Some ''Pat Smith'', pg_team = Some ''Beta'',
            pg_realgm_previous_schools = [''Alpha''], pg_date_yyyymmdd = Some ''20241101'' \<rparr>] \<rparr>"

text \<open>
  A rule \<open>r\<close> emits a badge satisfying \<open>P\<close> at most when the flag \<open>F\<close> is not yet set,
  and then sets it; it keeps the flag and the invariant \<open>I\<close>.
\<close>

definition once_step ::
  "(mstate \<Rightarrow> bool) \<Rightarrow> (badge \<Rightarrow> bool) \<Rightarrow> (mstate \<Rightarrow> bool) \<Rightarrow> (mstate \<Rightarrow> mstate) \<Rightarrow> bool" where
  "once_step I P F r =
     (\<forall>s. I s \<longrightarrow>
        I (r s) \<and> (F s \<longrightarrow> F (r s))
        \<and> (filter P (badges (r s)) = filter P (badges s)
            \<or> (\<not> F s \<and> F (r s)
                \<and> length (filter P (badges (r s))) = Suc (length (filter P (badges s))))))"

text \<open>The fresh entry of a game, and the rules of the loop body in their order.\<close>

definition clear_badges :: "mstate \<Rightarrow> mstate" where
  "clear_badges s = s\<lparr>badges := []\<rparr>"

definition game_rules :: "DATA \<Rightarrow> nat \<Rightarrow> game \<Rightarrow> (mstate \<Rightarrow> mstate) list" where
  "game_rules d i g =
     [game_count_rule,
      d1_game_rule (or_str (Division g) ''D1''),
      streak_rule d (or_str (DateSort g) []),
      state_rule (or_str (State g) []),
      venue_rule (or_str (Division g) ''D1'') (or_str (Venue g) []),
      team_rule d g (or_gender (Gender g)) (or_str (AwayTeam g) []),
      team_rule d g (or_gender (Gender g)) (or_str (HomeTeam g) []),
      conf_rule d (or_gender (Gender g)) (conf_text d (getGameConference_away d g))
        (or_str (AwayTeam g) []),
      conf_rule d (or_gender (Gender g)) (conf_text d (getGameConference_home d g))
        (or_str (HomeTeam g) []),
      matchup_rule (or_gender (Gender g)) (or_str (AwayTeam g) []) (or_str (HomeTeam g) []),
      conf_matchup_rule d (getGameConference_away d g) (getGameConference_home d g),
      conf_venue_rule (or_str (Venue g) []) (conf_text d (getGameConference_home d g)),
      fold (transfer_rule d g) (gamePlayers d (gameId_of i g))]"

text \<open>A conference with a team on record has a positive team counter.\<close>

definition conf_inv :: "string \<Rightarrow> mstate \<Rightarrow> bool" where
  "conf_inv c s =
     (\<forall>g. conf_seen s (c @ ''|'' @ gender_str g) \<noteq> [] \<longrightarrow> \<not> falsy_count (confTeamCounts s) c)"

text \<open>A completion badge of a sentinel conference.\<close>

fun sentinel_complete :: "badge \<Rightarrow> bool" where
  "sentinel_complete (ConfComplete c g n) = sentinel c"
| "sentinel_complete b = False"

text \<open>A completion badge that does not show the positive member count of its conference.\<close>

fun unfounded_complete :: "DATA \<Rightarrow> badge \<Rightarrow> bool" where
  "unfounded_complete d (ConfComplete c g n) =
     (n = 0 \<or> n \<noteq> count_of (conferenceTeamCounts d) c)"
| "unfounded_complete d b = False"

text \<open>
  A roster in which one team is listed only under the aggregate \<^verbatim>\<open>All D1\<close>, and a game
  whose home side is marked \<^verbatim>\<open>Historical/Other\<close>.
\<close>

definition sentinel_games :: DATA where
  "sentinel_games =
    (no_tables
        [plain_game ''g1'' ''20240101'' Men ''Duke'' ''Elon'' ''Hall'',
         (plain_game ''g2'' ''20240105'' Men ''Duke'' ''Hofstra'' ''Hall'')
           \<lparr>HomeConf := Some ''Historical/Other''\<rparr>])
    \<lparr> conferenceChecklist :=
        [(''ACC'', \<lparr> cd_teams = [\<lparr> ct_team = Some ''Duke'', ct_name = None \<rparr>],
                    cd_totalTeams = 1 \<rparr>),
         (''All D1'', \<lparr> cd_teams = [\<lparr> ct_team = Some ''Duke'', ct_name = None \<rparr>,
                                    \<lparr> ct_team = Some ''Elon'', ct_name = None \<rparr>],
                       cd_totalTeams = 2 \<rparr>)] \<rparr>"

text \<open>A conference of three members, and four games that bring in one member each.\<close>

definition ivy_roster :: "(string \<times> conf_data) list" where
  "ivy_roster =
     [(''Ivy'', \<lparr> cd_teams = [\<lparr> ct_team = Some ''Brown'', ct_name = None \<rparr>,
                              \<lparr> ct_team = Some ''Yale'', ct_name = None \<rparr>,
                              \<lparr> ct_team = Some ''Penn'', ct_name = None \<rparr>],
                 cd_totalTeams = 3 \<rparr>)]"

definition ivy_data :: DATA where
  "ivy_data = (no_tables [])\<lparr>conferenceChecklist := ivy_roster\<rparr>"

definition ivy_games :: "game list" where
  "ivy_games =
     [plain_game ''g1'' ''20240101'' Women ''Brown'' ''Guest'' ''Hall'',
      plain_game ''g2'' ''20240108'' Women ''Brown'' ''Guest'' ''Hall'',
      plain_game ''g3'' ''20240115'' Women ''Yale'' ''Guest'' ''Hall'',
      plain_game ''g4'' ''20240122'' Women ''Penn'' ''Guest'' ''Hall'']"

text \<open>The loop body up to the conference rules.\<close>

definition before_conf :: "DATA \<Rightarrow> game \<Rightarrow> mstate \<Rightarrow> mstate" where
  "before_conf d g s =
     team_rule d g (or_gender (Gender g)) (or_str (HomeTeam g) [])
       (team_rule d g (or_gender (Gender g)) (or_str (AwayTeam g) [])
          (venue_rule (or_str (Division g) ''D1'') (or_str (Venue g) []) (before_venue d g s)))"

definition after_conf :: "DATA \<Rightarrow> game \<Rightarrow> mstate \<Rightarrow> mstate" where
  "after_conf d g s =
     conf_rule d (or_gender (Gender g)) (conf_text d (getGameConference_home d g))
       (or_str (HomeTeam g) [])
       (conf_rule d (or_gender (Gender g)) (conf_text d (getGameConference_away d g))
          (or_str (AwayTeam g) []) (before_conf d g s))"

text \<open>
  Three games of one day: the first is a women's game with a tip-off time, the second a
  men's game without one, the third a men's game with an earlier tip-off time.
\<close>

definition cyclic_games :: "game list" where
  "cyclic_games =
     [(plain_game ''1'' ''20240101'' Women ''P'' ''Q'' ''Hall'')\<lparr>TimeSort := Some ''1900''\<rparr>,
      plain_game ''2'' ''20240101'' Men ''P'' ''Q'' ''Hall'',
      (plain_game ''3'' ''20240101'' Men ''R'' ''S'' ''Gym'')\<lparr>TimeSort := Some ''1700''\<rparr>]"

text \<open>Either every game of the list has a tip-off time, or none has.\<close>

definition uniform_time :: "game list \<Rightarrow> bool" where
  "uniform_time gs =
     ((\<forall>g \<in> set gs. or_str (TimeSort g) [] \<noteq> []) \<or> (\<forall>g \<in> set gs. or_str (TimeSort g) [] = []))"

text \<open>Two games at a venue whose name is the name of an inherited member.\<close>

definition constructor_games :: DATA where
  "constructor_games = no_tables
     [plain_game ''g1'' ''20240101'' Men ''P'' ''Q'' ''constructor'',
      plain_game ''g2'' ''20240105'' Men ''P'' ''R'' ''constructor'']"

text \<open>Three games whose away side is the same team of a conference of such a name.\<close>

definition constructor_conf_games :: DATA where
  "constructor_conf_games = no_tables
     [(plain_game ''g1'' ''20240101'' Men ''P'' ''Q'' ''Hall'')\<lparr>AwayConf := Some ''constructor''\<rparr>,
      (plain_game ''g2'' ''20240105'' Men ''P'' ''R'' ''Hall'')\<lparr>AwayConf := Some ''constructor''\<rparr>,
      (plain_game ''g3'' ''20240109'' Men ''P'' ''S'' ''Hall'')\<lparr>AwayConf := Some ''constructor''\<rparr>]"

text \<open>
  The roster of three members under the name \<^verbatim>\<open>__proto__\<close>, and the four games that bring
  in one member each.
\<close>

definition proto_roster :: "(string \<times> conf_data) list" where
  "proto_roster = [(''__proto__'', snd (hd ivy_roster))]"

definition proto_data :: DATA where
  "proto_data = (no_tables ivy_games)\<lparr>conferenceChecklist := proto_roster\<rparr>"

text \<open>The other gender.\<close>

definition other_gender :: "gender \<Rightarrow> gender" where
  "other_gender g = (case g of Men \<Rightarrow> Women | Women \<Rightarrow> Men)"

section \<open>Properties\<close>

subsection \<open>The end-to-end scenario\<close>

text \<open>
  C2 (as stated, refuted). In the scenario the second game is played at the second venue
  seen and the third game is the second visit to Arena1. The claim expects a
  \<^verbatim>\<open>venue-count\<close> badge on the second game and a \<^verbatim>\<open>venue-visit\<close> badge on the
  third; the engine emits neither, because 2 is not in \<^verbatim>\<open>MILESTONE_COUNTS\<close>.
\<close>

theorem scenario_venue_badges_absent:
  "of_type ''venue-count'' (entry_badges (milestone_entries (scenario Men) ! 1)) = []
   \<and> of_type ''venue-visit'' (entry_badges (milestone_entries (scenario Men) ! 2)) = []"
  by code_simp

text \<open>
  C2 (amended). For the three games of the scenario, of either gender, the badge lists
  are exactly these: the first game has the badges for game 1, top-division game 1, venue 1,
  the two new teams and the new matchup; the second game has only the streak badge of
  length 2 (no new team, no venue badge); the third game has only the streak badge of
  length 3 (no venue-visit badge, no new matchup).
\<close>

theorem scenario_badges:
  "map entry_badges (milestone_entries (scenario g)) =
     [[GameCount 1, D1Game 1, VenueCount 1 ''Arena1'', NewTeam ''TeamX'' g, NewTeam ''TeamY'' g,
       NewMatchup ''TeamX'' ''TeamY'' g],
      [Streak 2],
      [Streak 3]]"
proof (cases g)
  case Men
  show ?thesis unfolding Men by code_simp
next
  case Women
  show ?thesis unfolding Women by code_simp
qed

subsection \<open>What each rule leaves alone\<close>

text \<open>
  Every rule writes a few fields of the rolling state and appends badges of its own
  types; the lemmas of this subsection record which fields and which badge types a rule
  does not touch.
\<close>

lemma of_type_append [simp]: "of_type ty (xs @ ys) = of_type ty xs @ of_type ty ys"
  by (simp add: of_type_def)

lemma of_type_Nil [simp]: "of_type ty [] = []"
  by (simp add: of_type_def)

lemma of_type_Cons [simp]:
  "of_type ty (b # bs) = (if ty = badge_type b then b # of_type ty bs else of_type ty bs)"
  by (auto simp: of_type_def)

lemma game_count_rule_fields [simp]:
  "teamCounts (game_count_rule s) = teamCounts s"
  "teamRecords (game_count_rule s) = teamRecords s"
  "venueCounts (game_count_rule s) = venueCounts s"
  "matchupsSeen (game_count_rule s) = matchupsSeen s"
  "confMatchupCounts (game_count_rule s) = confMatchupCounts s"
  "confTeamCounts (game_count_rule s) = confTeamCounts s"
  "playerTeams (game_count_rule s) = playerTeams s"
  "venueOrder (game_count_rule s) = venueOrder s"
  "confTeamsSeen (game_count_rule s) = confTeamsSeen s"
  "confVenuesSeen (game_count_rule s) = confVenuesSeen s"
  "confCompleted (game_count_rule s) = confCompleted s"
  "statesSeen (game_count_rule s) = statesSeen s"
  "stateOrder (game_count_rule s) = stateOrder s"
  "currentStreak (game_count_rule s) = currentStreak s"
  "lastGameDate (game_count_rule s) = lastGameDate s"
  "maxStreak (game_count_rule s) = maxStreak s"
  "streakHistory (game_count_rule s) = streakHistory s"
  "d1GameCount (game_count_rule s) = d1GameCount s"
  "d1VenueCount (game_count_rule s) = d1VenueCount s"
  "d1VenuesSeen (game_count_rule s) = d1VenuesSeen s"
  "d1TeamsSeen (game_count_rule s) = d1TeamsSeen s"
  by (simp_all add: game_count_rule_def push_def Let_def split: option.splits prod.splits)

lemma game_count_rule_types [simp]:
  "ty \<noteq> ''game-count'' \<Longrightarrow> of_type ty (badges (game_count_rule s)) = of_type ty (badges s)"
  by (simp add: game_count_rule_def push_def Let_def split: option.splits prod.splits)

lemma d1_game_rule_fields [simp]:
  "teamCounts (d1_game_rule division s) = teamCounts s"
  "teamRecords (d1_game_rule division s) = teamRecords s"
  "venueCounts (d1_game_rule division s) = venueCounts s"
  "matchupsSeen (d1_game_rule division s) = matchupsSeen s"
  "confMatchupCounts (d1_game_rule division s) = confMatchupCounts s"
  "confTeamCounts (d1_game_rule division s) = confTeamCounts s"
  "playerTeams (d1_game_rule division s) = playerTeams s"
  "venueOrder (d1_game_rule division s) = venueOrder s"
  "confTeamsSeen (d1_game_rule division s) = confTeamsSeen s"
  "confVenuesSeen (d1_game_rule division s) = confVenuesSeen s"
  "confCompleted (d1_game_rule division s) = confCompleted s"
  "statesSeen (d1_game_rule division s) = statesSeen s"
  "stateOrder (d1_game_rule division s) = stateOrder s"
  "currentStreak (d1_game_rule division s) = currentStreak s"
  "lastGameDate (d1_game_rule division s) = lastGameDate s"
  "maxStreak (d1_game_rule division s) = maxStreak s"
  "streakHistory (d1_game_rule division s) = streakHistory s"
  "gameCount (d1_game_rule division s) = gameCount s"
  "d1VenueCount (d1_game_rule division s) = d1VenueCount s"
  "d1VenuesSeen (d1_game_rule division s) = d1VenuesSeen s"
  "d1TeamsSeen (d1_game_rule division s) = d1TeamsSeen s"
  by (simp_all add: d1_game_rule_def push_def Let_def split: option.splits prod.splits)

lemma d1_game_rule_types [simp]:
  "ty \<noteq> ''d1-game'' \<Longrightarrow> of_type ty (badges (d1_game_rule division s)) = of_type ty (badges s)"
  by (simp add: d1_game_rule_def push_def Let_def split: option.splits prod.splits)

lemma streak_rule_fields [simp]:
  "teamCounts (streak_rule d dateSort s) = teamCounts s"
  "teamRecords (streak_rule d dateSort s) = teamRecords s"
  "venueCounts (streak_rule d dateSort s) = venueCounts s"
  "matchupsSeen (streak_rule d dateSort s) = matchupsSeen s"
  "confMatchupCounts (streak_rule d dateSort s) = confMatchupCounts s"
  "confTeamCounts (streak_rule d dateSort s) = confTeamCounts s"
  "playerTeams (streak_rule d dateSort s) = playerTeams s"
  "venueOrder (streak_rule d dateSort s) = venueOrder s"
  "confTeamsSeen (streak_rule d dateSort s) = confTeamsSeen s"
  "confVenuesSeen (streak_rule d dateSort s) = confVenuesSeen s"
  "confCompleted (streak_rule d dateSort s) = confCompleted s"
  "statesSeen (streak_rule d dateSort s) = statesSeen s"
  "stateOrder (streak_rule d dateSort s) = stateOrder s"
  "gameCount (streak_rule d dateSort s) = gameCount s"
  "d1GameCount (streak_rule d dateSort s) = d1GameCount s"
  "d1VenueCount (streak_rule d dateSort s) = d1VenueCount s"
  "d1VenuesSeen (streak_rule d dateSort s) = d1VenuesSeen s"
  "d1TeamsSeen (streak_rule d dateSort s) = d1TeamsSeen s"
  by (simp_all add: streak_rule_def streak_update_def push_def Let_def split: option.splits prod.splits)

lemma streak_rule_types [simp]:
  "ty \<noteq> ''streak'' \<Longrightarrow> of_type ty (badges (streak_rule d dateSort s)) = of_type ty (badges s)"
  by (simp add: streak_rule_def streak_update_def push_def Let_def split: option.splits prod.splits)

lemma state_rule_fields [simp]:
  "teamCounts (state_rule st s) = teamCounts s"
  "teamRecords (state_rule st s) = teamRecords s"
  "venueCounts (state_rule st s) = venueCounts s"
  "matchupsSeen (state_rule st s) = matchupsSeen s"
  "confMatchupCounts (state_rule st s) = confMatchupCounts s"
  "confTeamCounts (state_rule st s) = confTeamCounts s"
  "playerTeams (state_rule st s) = playerTeams s"
  "venueOrder (state_rule st s) = venueOrder s"
  "confTeamsSeen (state_rule st s) = confTeamsSeen s"
  "confVenuesSeen (state_rule st s) = confVenuesSeen s"
  "confCompleted (state_rule st s) = confCompleted s"
  "currentStreak (state_rule st s) = currentStreak s"
  "lastGameDate (state_rule st s) = lastGameDate s"
  "maxStreak (state_rule st s) = maxStreak s"
  "streakHistory (state_rule st s) = streakHistory s"
  "gameCount (state_rule st s) = gameCount s"
  "d1GameCount (state_rule st s) = d1GameCount s"
  "d1VenueCount (state_rule st s) = d1VenueCount s"
  "d1VenuesSeen (state_rule st s) = d1VenuesSeen s"
  "d1TeamsSeen (state_rule st s) = d1TeamsSeen s"
  by (simp_all add: state_rule_def push_def Let_def split: option.splits prod.splits)

lemma state_rule_types [simp]:
  "ty \<noteq> ''new-state'' \<Longrightarrow> of_type ty (badges (state_rule st s)) = of_type ty (badges s)"
  by (simp add: state_rule_def push_def Let_def split: option.splits prod.splits)

lemma venue_rule_fields [simp]:
  "teamCounts (venue_rule division venue s) = teamCounts s"
  "teamRecords (venue_rule division venue s) = teamRecords s"
  "matchupsSeen (venue_rule division venue s) = matchupsSeen s"
  "confMatchupCounts (venue_rule division venue s) = confMatchupCounts s"
  "confTeamCounts (venue_rule division venue s) = confTeamCounts s"
  "playerTeams (venue_rule division venue s) = playerTeams s"
  "confTeamsSeen (venue_rule division venue s) = confTeamsSeen s"
  "confVenuesSeen (venue_rule division venue s) = confVenuesSeen s"
  "confCompleted (venue_rule division venue s) = confCompleted s"
  "statesSeen (venue_rule division venue s) = statesSeen s"
  "stateOrder (venue_rule division venue s) = stateOrder s"
  "currentStreak (venue_rule division venue s) = currentStreak s"
  "lastGameDate (venue_rule division venue s) = lastGameDate s"
  "maxStreak (venue_rule division venue s) = maxStreak s"
  "streakHistory (venue_rule division venue s) = streakHistory s"
  "gameCount (venue_rule division venue s) = gameCount s"
  "d1GameCount (venue_rule division venue s) = d1GameCount s"
  "d1TeamsSeen (venue_rule division venue s) = d1TeamsSeen s"
  by (simp_all add: venue_rule_def venue_new_def push_def Let_def split: option.splits prod.splits)

lemma venue_rule_types [simp]:
  "ty \<noteq> ''venue-count'' \<Longrightarrow> ty \<noteq> ''venue-visit'' \<Longrightarrow> of_type ty (badges (venue_rule division venue s)) = of_type ty (badges s)"
  by (simp add: venue_rule_def venue_new_def push_def Let_def split: option.splits prod.splits)

lemma team_rule_fields [simp]:
  "venueCounts (team_rule d g gender tm s) = venueCounts s"
  "matchupsSeen (team_rule d g gender tm s) = matchupsSeen s"
  "confMatchupCounts (team_rule d g gender tm s) = confMatchupCounts s"
  "confTeamCounts (team_rule d g gender tm s) = confTeamCounts s"
  "playerTeams (team_rule d g gender tm s) = playerTeams s"
  "venueOrder (team_rule d g gender tm s) = venueOrder s"
  "confTeamsSeen (team_rule d g gender tm s) = confTeamsSeen s"
  "confVenuesSeen (team_rule d g gender tm s) = confVenuesSeen s"
  "confCompleted (team_rule d g gender tm s) = confCompleted s"
  "statesSeen (team_rule d g gender tm s) = statesSeen s"
  "stateOrder (team_rule d g gender tm s) = stateOrder s"
  "currentStreak (team_rule d g gender tm s) = currentStreak s"
  "lastGameDate (team_rule d g gender tm s) = lastGameDate s"
  "maxStreak (team_rule d g gender tm s) = maxStreak s"
  "streakHistory (team_rule d g gender tm s) = streakHistory s"
  "gameCount (team_rule d g gender tm s) = gameCount s"
  "d1GameCount (team_rule d g gender tm s) = d1GameCount s"
  "d1VenueCount (team_rule d g gender tm s) = d1VenueCount s"
  "d1VenuesSeen (team_rule d g gender tm s) = d1VenuesSeen s"
  by (simp_all add: team_rule_def team_new_def team_record_def push_def Let_def split: option.splits prod.splits)

lemma team_rule_types [simp]:
  "ty \<noteq> ''new-team'' \<Longrightarrow> ty \<noteq> ''d1-team'' \<Longrightarrow> ty \<noteq> ''team-visit'' \<Longrightarrow> of_type ty (badges (team_rule d g gender tm s)) = of_type ty (badges s)"
  by (simp add: team_rule_def team_new_def team_record_def push_def Let_def split: option.splits prod.splits)

lemma conf_rule_fields [simp]:
  "teamCounts (conf_rule d gender conf tm s) = teamCounts s"
  "teamRecords (conf_rule d gender conf tm s) = teamRecords s"
  "venueCounts (conf_rule d gender conf tm s) = venueCounts s"
  "matchupsSeen (conf_rule d gender conf tm s) = matchupsSeen s"
  "confMatchupCounts (conf_rule d gender conf tm s) = confMatchupCounts s"
  "playerTeams (conf_rule d gender conf tm s) = playerTeams s"
  "venueOrder (conf_rule d gender conf tm s) = venueOrder s"
  "confVenuesSeen (conf_rule d gender conf tm s) = confVenuesSeen s"
  "statesSeen (conf_rule d gender conf tm s) = statesSeen s"
  "stateOrder (conf_rule d gender conf tm s) = stateOrder s"
  "currentStreak (conf_rule d gender conf tm s) = currentStreak s"
  "lastGameDate (conf_rule d gender conf tm s) = lastGameDate s"
  "maxStreak (conf_rule d gender conf tm s) = maxStreak s"
  "streakHistory (conf_rule d gender conf tm s) = streakHistory s"
  "gameCount (conf_rule d gender conf tm s) = gameCount s"
  "d1GameCount (conf_rule d gender conf tm s) = d1GameCount s"
  "d1VenueCount (conf_rule d gender conf tm s) = d1VenueCount s"
  "d1VenuesSeen (conf_rule d gender conf tm s) = d1VenuesSeen s"
  "d1TeamsSeen (conf_rule d gender conf tm s) = d1TeamsSeen s"
  by (simp_all add: conf_rule_def conf_seen_def push_def Let_def split: option.splits prod.splits)

lemma conf_rule_types [simp]:
  "ty \<noteq> ''new-conf'' \<Longrightarrow> ty \<noteq> ''conf-complete'' \<Longrightarrow> of_type ty (badges (conf_rule d gender conf tm s)) = of_type ty (badges s)"
  by (simp add: conf_rule_def conf_seen_def push_def Let_def split: option.splits prod.splits)

lemma matchup_rule_fields [simp]:
  "teamCounts (matchup_rule gender awayTeam homeTeam s) = teamCounts s"
  "teamRecords (matchup_rule gender awayTeam homeTeam s) = teamRecords s"
  "venueCounts (matchup_rule gender awayTeam homeTeam s) = venueCounts s"
  "confMatchupCounts (matchup_rule gender awayTeam homeTeam s) = confMatchupCounts s"
  "confTeamCounts (matchup_rule gender awayTeam homeTeam s) = confTeamCounts s"
  "playerTeams (matchup_rule gender awayTeam homeTeam s) = playerTeams s"
  "venueOrder (matchup_rule gender awayTeam homeTeam s) = venueOrder s"
  "confTeamsSeen (matchup_rule gender awayTeam homeTeam s) = confTeamsSeen s"
  "confVenuesSeen (matchup_rule gender awayTeam homeTeam s) = confVenuesSeen s"
  "confCompleted (matchup_rule gender awayTeam homeTeam s) = confCompleted s"
  "statesSeen (matchup_rule gender awayTeam homeTeam s) = statesSeen s"
  "stateOrder (matchup_rule gender awayTeam homeTeam s) = stateOrder s"
  "currentStreak (matchup_rule gender awayTeam homeTeam s) = currentStreak s"
  "lastGameDate (matchup_rule gender awayTeam homeTeam s) = lastGameDate s"
  "maxStreak (matchup_rule gender awayTeam homeTeam s) = maxStreak s"
  "streakHistory (matchup_rule gender awayTeam homeTeam s) = streakHistory s"
  "gameCount (matchup_rule gender awayTeam homeTeam s) = gameCount s"
  "d1GameCount (matchup_rule gender awayTeam homeTeam s) = d1GameCount s"
  "d1VenueCount (matchup_rule gender awayTeam homeTeam s) = d1VenueCount s"
  "d1VenuesSeen (matchup_rule gender awayTeam homeTeam s) = d1VenuesSeen s"
  "d1TeamsSeen (matchup_rule gender awayTeam homeTeam s) = d1TeamsSeen s"
  by (simp_all add: matchup_rule_def push_def Let_def split: option.splits prod.splits)

lemma matchup_rule_types [simp]:
  "ty \<noteq> ''new-matchup'' \<Longrightarrow> of_type ty (badges (matchup_rule gender awayTeam homeTeam s)) = of_type ty (badges s)"
  by (simp add: matchup_rule_def push_def Let_def split: option.splits prod.splits)

lemma conf_matchup_rule_fields [simp]:
  "teamCounts (conf_matchup_rule d awayConf homeConf s) = teamCounts s"
  "teamRecords (conf_matchup_rule d awayConf homeConf s) = teamRecords s"
  "venueCounts (conf_matchup_rule d awayConf homeConf s) = venueCounts s"
  "matchupsSeen (conf_matchup_rule d awayConf homeConf s) = matchupsSeen s"
  "confTeamCounts (conf_matchup_rule d awayConf homeConf s) = confTeamCounts s"
  "playerTeams (conf_matchup_rule d awayConf homeConf s) = playerTeams s"
  "venueOrder (conf_matchup_rule d awayConf homeConf s) = venueOrder s"
  "confTeamsSeen (conf_matchup_rule d awayConf homeConf s) = confTeamsSeen s"
  "confVenuesSeen (conf_matchup_rule d awayConf homeConf s) = confVenuesSeen s"
  "confCompleted (conf_matchup_rule d awayConf homeConf s) = confCompleted s"
  "statesSeen (conf_matchup_rule d awayConf homeConf s) = statesSeen s"
  "stateOrder (conf_matchup_rule d awayConf homeConf s) = stateOrder s"
  "currentStreak (conf_matchup_rule d awayConf homeConf s) = currentStreak s"
  "lastGameDate (conf_matchup_rule d awayConf homeConf s) = lastGameDate s"
  "maxStreak (conf_matchup_rule d awayConf homeConf s) = maxStreak s"
  "streakHistory (conf_matchup_rule d awayConf homeConf s) = streakHistory s"
  "gameCount (conf_matchup_rule d awayConf homeConf s) = gameCount s"
  "d1GameCount (conf_matchup_rule d awayConf homeConf s) = d1GameCount s"
  "d1VenueCount (conf_matchup_rule d awayConf homeConf s) = d1VenueCount s"
  "d1VenuesSeen (conf_matchup_rule d awayConf homeConf s) = d1VenuesSeen s"
  "d1TeamsSeen (conf_matchup_rule d awayConf homeConf s) = d1TeamsSeen s"
  by (simp_all add: conf_matchup_rule_def push_def Let_def split: option.splits prod.splits)

lemma conf_matchup_rule_types [simp]:
  "ty \<noteq> ''conf-matchup'' \<Longrightarrow> of_type ty (badges (conf_matchup_rule d awayConf homeConf s)) = of_type ty (badges s)"
  by (simp add: conf_matchup_rule_def push_def Let_def split: option.splits prod.splits)

lemma conf_venue_rule_fields [simp]:
  "teamCounts (conf_venue_rule venue homeConf s) = teamCounts s"
  "teamRecords (conf_venue_rule venue homeConf s) = teamRecords s"
  "venueCounts (conf_venue_rule venue homeConf s) = venueCounts s"
  "matchupsSeen (conf_venue_rule venue homeConf s) = matchupsSeen s"
  "confMatchupCounts (conf_venue_rule venue homeConf s) = confMatchupCounts s"
  "confTeamCounts (conf_venue_rule venue homeConf s) = confTeamCounts s"
  "playerTeams (conf_venue_rule venue homeConf s) = playerTeams s"
  "venueOrder (conf_venue_rule venue homeConf s) = venueOrder s"
  "confTeamsSeen (conf_venue_rule venue homeConf s) = confTeamsSeen s"
  "confCompleted (conf_venue_rule venue homeConf s) = confCompleted s"
  "statesSeen (conf_venue_rule venue homeConf s) = statesSeen s"
  "stateOrder (conf_venue_rule venue homeConf s) = stateOrder s"
  "currentStreak (conf_venue_rule venue homeConf s) = currentStreak s"
  "lastGameDate (conf_venue_rule venue homeConf s) = lastGameDate s"
  "maxStreak (conf_venue_rule venue homeConf s) = maxStreak s"
  "streakHistory (conf_venue_rule venue homeConf s) = streakHistory s"
  "gameCount (conf_venue_rule venue homeConf s) = gameCount s"
  "d1GameCount (conf_venue_rule venue homeConf s) = d1GameCount s"
  "d1VenueCount (conf_venue_rule venue homeConf s) = d1VenueCount s"
  "d1VenuesSeen (conf_venue_rule venue homeConf s) = d1VenuesSeen s"
  "d1TeamsSeen (conf_venue_rule venue homeConf s) = d1TeamsSeen s"
  by (simp_all add: conf_venue_rule_def push_def Let_def split: option.splits prod.splits)

lemma conf_venue_rule_badges [simp]: "badges (conf_venue_rule venue homeConf s) = badges s"
  by (simp add: conf_venue_rule_def)

lemma transfer_rule_fields [simp]:
  "teamCounts (transfer_rule d g pg s) = teamCounts s"
  "teamRecords (transfer_rule d g pg s) = teamRecords s"
  "venueCounts (transfer_rule d g pg s) = venueCounts s"
  "matchupsSeen (transfer_rule d g pg s) = matchupsSeen s"
  "confMatchupCounts (transfer_rule d g pg s) = confMatchupCounts s"
  "confTeamCounts (transfer_rule d g pg s) = confTeamCounts s"
  "venueOrder (transfer_rule d g pg s) = venueOrder s"
  "confTeamsSeen (transfer_rule d g pg s) = confTeamsSeen s"
  "confVenuesSeen (transfer_rule d g pg s) = confVenuesSeen s"
  "confCompleted (transfer_rule d g pg s) = confCompleted s"
  "statesSeen (transfer_rule d g pg s) = statesSeen s"
  "stateOrder (transfer_rule d g pg s) = stateOrder s"
  "currentStreak (transfer_rule d g pg s) = currentStreak s"
  "lastGameDate (transfer_rule d g pg s) = lastGameDate s"
  "maxStreak (transfer_rule d g pg s) = maxStreak s"
  "streakHistory (transfer_rule d g pg s) = streakHistory s"
  "gameCount (transfer_rule d g pg s) = gameCount s"
  "d1GameCount (transfer_rule d g pg s) = d1GameCount s"
  "d1VenueCount (transfer_rule d g pg s) = d1VenueCount s"
  "d1VenuesSeen (transfer_rule d g pg s) = d1VenuesSeen s"
  "d1TeamsSeen (transfer_rule d g pg s) = d1TeamsSeen s"
  by (simp_all add: transfer_rule_def known_schools_def push_def Let_def split: option.splits prod.splits)

lemma transfer_rule_types [simp]:
  "ty \<noteq> ''transfer'' \<Longrightarrow> of_type ty (badges (transfer_rule d g pg s)) = of_type ty (badges s)"
  by (simp add: transfer_rule_def known_schools_def push_def Let_def split: option.splits prod.splits)

lemma transfer_fold_fields [simp]:
  "teamCounts (fold (transfer_rule d g) pgs s) = teamCounts s"
  "teamRecords (fold (transfer_rule d g) pgs s) = teamRecords s"
  "venueCounts (fold (transfer_rule d g) pgs s) = venueCounts s"
  "matchupsSeen (fold (transfer_rule d g) pgs s) = matchupsSeen s"
  "confMatchupCounts (fold (transfer_rule d g) pgs s) = confMatchupCounts s"
  "confTeamCounts (fold (transfer_rule d g) pgs s) = confTeamCounts s"
  "venueOrder (fold (transfer_rule d g) pgs s) = venueOrder s"
  "confTeamsSeen (fold (transfer_rule d g) pgs s) = confTeamsSeen s"
  "confVenuesSeen (fold (transfer_rule d g) pgs s) = confVenuesSeen s"
  "confCompleted (fold (transfer_rule d g) pgs s) = confCompleted s"
  "statesSeen (fold (transfer_rule d g) pgs s) = statesSeen s"
  "stateOrder (fold (transfer_rule d g) pgs s) = stateOrder s"
  "currentStreak (fold (transfer_rule d g) pgs s) = currentStreak s"
  "lastGameDate (fold (transfer_rule d g) pgs s) = lastGameDate s"
  "maxStreak (fold (transfer_rule d g) pgs s) = maxStreak s"
  "streakHistory (fold (transfer_rule d g) pgs s) = streakHistory s"
  "gameCount (fold (transfer_rule d g) pgs s) = gameCount s"
  "d1GameCount (fold (transfer_rule d g) pgs s) = d1GameCount s"
  "d1VenueCount (fold (transfer_rule d g) pgs s) = d1VenueCount s"
  "d1VenuesSeen (fold (transfer_rule d g) pgs s) = d1VenuesSeen s"
  "d1TeamsSeen (fold (transfer_rule d g) pgs s) = d1TeamsSeen s"
  by (induction pgs arbitrary: s; simp)+

lemma transfer_fold_types [simp]:
  "ty \<noteq> ''transfer'' \<Longrightarrow> of_type ty (badges (fold (transfer_rule d g) pgs s)) = of_type ty (badges s)"
  by (induction pgs arbitrary: s) simp_all

subsection \<open>Streaks\<close>














subsection \<open>Malformed dates\<close>




subsection \<open>Venues\<close>

lemma before_venue_fields:
  "venueCounts (before_venue d g s) = venueCounts s"
  "venueOrder (before_venue d g s) = venueOrder s"
  "d1VenuesSeen (before_venue d g s) = d1VenuesSeen s"
  "d1VenueCount (before_venue d g s) = d1VenueCount s"
  "confVenuesSeen (before_venue d g s) = confVenuesSeen s"
  "of_type ''venue-count'' (badges (before_venue d g s)) = []"
  "of_type ''venue-visit'' (badges (before_venue d g s)) = []"
  by (simp_all add: before_venue_def before_streak_def)

lemma process_game_venue_aux:
  "venueCounts (process_game d i g s) =
     venueCounts (venue_rule (or_str (Division g) ''D1'') (or_str (Venue g) []) (before_venue d g s))"
  "venueOrder (process_game d i g s) =
     venueOrder (venue_rule (or_str (Division g) ''D1'') (or_str (Venue g) []) (before_venue d g s))"
  "d1VenuesSeen (process_game d i g s) =
     d1VenuesSeen (venue_rule (or_str (Division g) ''D1'') (or_str (Venue g) []) (before_venue d g s))"
  "d1VenueCount (process_game d i g s) =
     d1VenueCount (venue_rule (or_str (Division g) ''D1'') (or_str (Venue g) []) (before_venue d g s))"
  "of_type ''venue-count'' (badges (process_game d i g s)) =
     of_type ''venue-count'' (badges (venue_rule (or_str (Division g) ''D1'') (or_str (Venue g) []) (before_venue d g s)))"
  "of_type ''venue-visit'' (badges (process_game d i g s)) =
     of_type ''venue-visit'' (badges (venue_rule (or_str (Division g) ''D1'') (or_str (Venue g) []) (before_venue d g s)))"
  by (simp_all add: process_game_def Let_def before_venue_def before_streak_def)

lemma process_game_confVenuesSeen:
  "or_str (Venue g) [] = [] \<Longrightarrow> confVenuesSeen (process_game d i g s) = confVenuesSeen s"
  by (simp add: process_game_def Let_def conf_venue_rule_def)

lemma venue_rule_Nil: "venue_rule dv [] s = s"
  by (simp add: venue_rule_def)

lemma inherited_proto: "inherited ''__proto__''"
  by (simp add: inherited_def proto_members_def)

lemma not_inherited_proto: "\<not> inherited k \<Longrightarrow> k \<noteq> ''__proto__''"
  using inherited_proto by auto

lemma falsy_count_plain: "\<not> inherited k \<Longrightarrow> falsy_count m k = (visits m k = 0)"
  by (simp add: falsy_count_def visits_def split: option.splits jsnum.splits)

lemma venue_rule_order:
  "v \<noteq> [] \<Longrightarrow> venueOrder (venue_rule dv v s) =
     (if falsy_count (venueCounts s) v then venueOrder s @ [v] else venueOrder s)"
  by (simp add: venue_rule_def venue_new_def push_def Let_def)

lemma venue_rule_count_badge:
  "v \<noteq> [] \<Longrightarrow> of_type ''venue-count'' (badges (venue_rule dv v s)) =
     of_type ''venue-count'' (badges s) @
     (if falsy_count (venueCounts s) v \<and> Suc (length (venueOrder s)) \<in> set MILESTONE_COUNTS
      then [VenueCount (Suc (length (venueOrder s))) v] else [])"
  by (simp add: venue_rule_def venue_new_def push_def Let_def)

lemma venue_rule_counts:
  assumes "v \<noteq> []" "\<not> inherited v"
  shows "venueCounts (venue_rule dv v s) = (venueCounts s)(v \<mapsto> Num (Suc (visits (venueCounts s) v)))"
proof (cases "venueCounts s v")
  case None
  then show ?thesis
    using assms not_inherited_proto [OF assms(2)]
    by (simp add: venue_rule_def venue_new_def push_def Let_def falsy_count_def assign_def
          increment_def visits_def)
next
  case (Some x)
  then show ?thesis
    using assms
    by (cases x)
      (simp_all add: venue_rule_def venue_new_def push_def Let_def falsy_count_def assign_def
        increment_def visits_def)
qed

lemma venue_rule_visit_badge:
  assumes "v \<noteq> []" "\<not> inherited v"
  shows "of_type ''venue-visit'' (badges (venue_rule dv v s)) =
     of_type ''venue-visit'' (badges s) @
     (if 1 < Suc (visits (venueCounts s) v) \<and> Suc (visits (venueCounts s) v) \<in> set MILESTONE_COUNTS
      then [VenueVisit v (Suc (visits (venueCounts s) v))] else [])"
proof (cases "venueCounts s v")
  case None
  then show ?thesis
    using assms not_inherited_proto [OF assms(2)]
    by (simp add: venue_rule_def venue_new_def push_def Let_def falsy_count_def assign_def
          increment_def visits_def milestone_hit_def)
next
  case (Some x)
  then show ?thesis
    using assms
    by (cases x)
      (simp_all add: venue_rule_def venue_new_def push_def Let_def falsy_count_def assign_def
        increment_def visits_def milestone_hit_def)
qed

lemma venue_rule_inherited:
  assumes "inherited v" "venueCounts s v = None"
  shows "venueOrder (venue_rule dv v s) = venueOrder s"
    "venueCounts (venue_rule dv v s) =
       (if v = ''__proto__'' then venueCounts s else (venueCounts s)(v \<mapsto> NaN))"
    "of_type ''venue-count'' (badges (venue_rule dv v s)) = of_type ''venue-count'' (badges s)"
    "of_type ''venue-visit'' (badges (venue_rule dv v s)) = of_type ''venue-visit'' (badges s)"
proof -
  have n: "v \<noteq> []"
    using assms(1) by (auto simp add: inherited_def proto_members_def)
  show "venueOrder (venue_rule dv v s) = venueOrder s"
    "venueCounts (venue_rule dv v s) =
       (if v = ''__proto__'' then venueCounts s else (venueCounts s)(v \<mapsto> NaN))"
    "of_type ''venue-count'' (badges (venue_rule dv v s)) = of_type ''venue-count'' (badges s)"
    "of_type ''venue-visit'' (badges (venue_rule dv v s)) = of_type ''venue-visit'' (badges s)"
    using assms n
    by (auto simp add: venue_rule_def venue_new_def push_def Let_def falsy_count_def assign_def
        increment_def visits_def milestone_hit_def)
qed

text \<open>
  C4 (the code falls short of the claim). The venue of both games is named
  \<^verbatim>\<open>constructor\<close>. The rule keeps its counters in a plain object and tests
  \<^verbatim>\<open>!venueCounts[venue]\<close>: on the first game that reads the inherited member, which
  is truthy, so the venue is not appended to \<^verbatim>\<open>venueOrder\<close>, the game carries no
  \<^verbatim>\<open>venue-count\<close> badge although this is the first venue, and the counter becomes
  \<^verbatim>\<open>NaN\<close>. The second game finds the falsy \<^verbatim>\<open>NaN\<close> and is taken for the first
  visit: it carries the badge for venue 1, and after two visits the counter stands at 1.
\<close>

theorem inherited_venue_skipped:
  "venueOrder (process_game constructor_games 0 (games constructor_games ! 0) init_state) = []
   \<and> venueCounts (process_game constructor_games 0 (games constructor_games ! 0) init_state)
        ''constructor'' = Some NaN
   \<and> of_type ''venue-count'' (entry_badges (milestone_entries constructor_games ! 0)) = []
   \<and> of_type ''venue-count'' (entry_badges (milestone_entries constructor_games ! 1))
       = [VenueCount 1 ''constructor'']
   \<and> venueOrder (badgeTrackingData constructor_games) = [''constructor'']
   \<and> venueCounts (badgeTrackingData constructor_games) ''constructor'' = Some (Num 1)"
  by code_simp

text \<open>
  For every other venue the rule does what the claim says. Let \<open>v\<close> be the venue of a
  game, not empty and not the name of a member of \<^verbatim>\<open>Object.prototype\<close>. When \<open>v\<close> has no visit on record, \<open>v\<close> is appended to
  \<^verbatim>\<open>venueOrder\<close>, a \<^verbatim>\<open>venue-count\<close> badge is emitted exactly when the new length \<open>n\<close>
  of \<^verbatim>\<open>venueOrder\<close> is in \<^verbatim>\<open>MILESTONE_COUNTS\<close>, and no \<^verbatim>\<open>venue-visit\<close> badge is
  emitted; when \<open>v\<close> has been visited, \<^verbatim>\<open>venueOrder\<close> is unchanged and there is no
  \<^verbatim>\<open>venue-count\<close> badge. In both cases the visit counter of \<open>v\<close> becomes \<open>c\<close>, one
  more than before, and a \<^verbatim>\<open>venue-visit\<close> badge is emitted exactly when \<open>1 < c\<close> and
  \<open>c\<close> is in \<^verbatim>\<open>MILESTONE_COUNTS\<close>. A venue that is the name of an inherited member and
  has no counter of its own gets neither badge and no place in \<^verbatim>\<open>venueOrder\<close>, and its
  counter becomes \<^verbatim>\<open>NaN\<close>, or stays unset for \<^verbatim>\<open>__proto__\<close>. A game with an empty
  venue has neither badge and leaves the venue state as it was.
\<close>

theorem venue_milestones:
  "let v = or_str (Venue g) [];
       s' = process_game d i g s;
       n = Suc (length (venueOrder s));
       c = Suc (visits (venueCounts s) v)
   in (v \<noteq> [] \<and> \<not> inherited v \<and> visits (venueCounts s) v = 0 \<longrightarrow>
         venueOrder s' = venueOrder s @ [v]
         \<and> of_type ''venue-count'' (badges s') =
             (if n \<in> set MILESTONE_COUNTS then [VenueCount n v] else [])
         \<and> of_type ''venue-visit'' (badges s') = [])
    \<and> (v \<noteq> [] \<and> \<not> inherited v \<and> 0 < visits (venueCounts s) v \<longrightarrow>
         venueOrder s' = venueOrder s \<and> of_type ''venue-count'' (badges s') = [])
    \<and> (v \<noteq> [] \<and> \<not> inherited v \<longrightarrow>
         venueCounts s' = (venueCounts s)(v \<mapsto> Num c)
         \<and> of_type ''venue-visit'' (badges s') =
             (if 1 < c \<and> c \<in> set MILESTONE_COUNTS then [VenueVisit v c] else []))
    \<and> (inherited v \<and> venueCounts s v = None \<longrightarrow>
         venueOrder s' = venueOrder s
         \<and> of_type ''venue-count'' (badges s') = [] \<and> of_type ''venue-visit'' (badges s') = []
         \<and> venueCounts s' = (if v = ''__proto__'' then venueCounts s else (venueCounts s)(v \<mapsto> NaN)))
    \<and> (v = [] \<longrightarrow>
         of_type ''venue-count'' (badges s') = [] \<and> of_type ''venue-visit'' (badges s') = []
         \<and> venueCounts s' = venueCounts s \<and> venueOrder s' = venueOrder s
         \<and> d1VenuesSeen s' = d1VenuesSeen s \<and> d1VenueCount s' = d1VenueCount s
         \<and> confVenuesSeen s' = confVenuesSeen s)"
proof (cases "or_str (Venue g) [] = []")
  case True
  then have "\<not> inherited (or_str (Venue g) [])"
    by (simp add: inherited_def proto_members_def)
  with True show ?thesis
    by (simp add: Let_def process_game_venue_aux venue_rule_Nil before_venue_fields
          process_game_confVenuesSeen)
next
  case False
  show ?thesis
  proof (cases "inherited (or_str (Venue g) [])")
    case True
    with False show ?thesis
      by (simp add: Let_def process_game_venue_aux before_venue_fields venue_rule_inherited)
  next
    case i: False
    with False show ?thesis
      by (simp add: Let_def process_game_venue_aux before_venue_fields venue_rule_counts
          venue_rule_order venue_rule_count_badge venue_rule_visit_badge falsy_count_plain)
  qed
qed

theorem venue_milestones_witness:
  "venueOrder (process_game (no_tables []) 0 hall_game init_state) = [''Hall'']
   \<and> of_type ''venue-count'' (badges (process_game (no_tables []) 0 hall_game init_state))
       = [VenueCount 1 ''Hall'']
   \<and> of_type ''venue-visit''
        (badges (process_game (no_tables []) 4 hall_game
                   (run_state (no_tables []) 0 four_hall_games init_state)))
       = [VenueVisit ''Hall'' 5]
   \<and> venueOrder (process_game (no_tables []) 0 (hall_game\<lparr>Venue := None\<rparr>) init_state) = []
   \<and> venueOrder (process_game (no_tables []) 0 (hall_game\<lparr>Venue := Some ''valueOf''\<rparr>) init_state)
       = []"
proof -
  have v: "or_str (Venue hall_game) [] = ''Hall''"
    by code_simp
  have p: "\<not> inherited ''Hall''" "inherited ''valueOf''"
    by code_simp+
  have f: "visits (venueCounts init_state) ''Hall'' = 0" "venueOrder init_state = []"
    "venueCounts init_state ''valueOf'' = None"
    by code_simp+
  have c: "visits (venueCounts (run_state (no_tables []) 0 four_hall_games init_state)) ''Hall'' = 4"
    by code_simp
  have m: "Suc 0 \<in> set MILESTONE_COUNTS" "5 \<in> set MILESTONE_COUNTS"
    by (simp_all add: MILESTONE_COUNTS_def)
  have w1: "venueOrder (process_game (no_tables []) 0 hall_game init_state) = [''Hall'']
     \<and> of_type ''venue-count'' (badges (process_game (no_tables []) 0 hall_game init_state))
         = [VenueCount 1 ''Hall'']"
    using venue_milestones [of hall_game "no_tables []" 0 init_state]
    by (simp add: Let_def v f m p)
  have w2: "of_type ''venue-visit''
        (badges (process_game (no_tables []) 4 hall_game
                   (run_state (no_tables []) 0 four_hall_games init_state)))
       = [VenueVisit ''Hall'' 5]"
    using venue_milestones [of hall_game "no_tables []" 4
        "run_state (no_tables []) 0 four_hall_games init_state"]
    by (simp add: Let_def v c m p)
  have w3: "venueOrder (process_game (no_tables []) 0 (hall_game\<lparr>Venue := None\<rparr>) init_state) = []"
    using venue_milestones [of "hall_game\<lparr>Venue := None\<rparr>" "no_tables []" 0 init_state]
    by (simp add: Let_def f or_str_def)
  have w4: "venueOrder (process_game (no_tables []) 0 (hall_game\<lparr>Venue := Some ''valueOf''\<rparr>)
                init_state) = []"
    using venue_milestones [of "hall_game\<lparr>Venue := Some ''valueOf''\<rparr>" "no_tables []" 0 init_state]
    by (simp add: Let_def f p or_str_def)
  show ?thesis
    using w1 w2 w3 w4 by simp
qed

subsection \<open>The default division\<close>

lemma gameId_of_Division: "gameId_of i (g\<lparr>Division := x\<rparr>) = gameId_of i g"
  by (simp add: gameId_of_def)

lemma getGameConference_Division:
  "getGameConference_away d (g\<lparr>Division := x\<rparr>) = getGameConference_away d g"
  "getGameConference_home d (g\<lparr>Division := x\<rparr>) = getGameConference_home d g"
  by (simp_all add: getGameConference_away_def getGameConference_home_def)

lemma team_rule_Division: "team_rule d (g\<lparr>Division := x\<rparr>) = team_rule d g"
  by (intro ext) (simp add: team_rule_def team_record_def)

lemma transfer_rule_Division: "transfer_rule d (g\<lparr>Division := x\<rparr>) = transfer_rule d g"
  by (intro ext) (simp add: transfer_rule_def Let_def cong: option.case_cong)

lemma process_game_Division:
  "or_str (Division g) ''D1'' = or_str x ''D1'' \<Longrightarrow>
     process_game d i (g\<lparr>Division := x\<rparr>) s = process_game d i g s"
  by (simp add: process_game_def gameId_of_Division getGameConference_Division
        team_rule_Division transfer_rule_Division)

lemma process_game_d1:
  "d1GameCount (process_game d i g s) =
     (if or_str (Division g) ''D1'' = ''D1'' then d1GameCount s + 1 else d1GameCount s)"
  "of_type ''d1-game'' (badges (process_game d i g s)) =
     (if or_str (Division g) ''D1'' = ''D1'' \<and> d1GameCount s + 1 \<in> set D1_MILESTONES
      then [D1Game (d1GameCount s + 1)] else [])"
  by (simp_all add: process_game_def Let_def d1_game_rule_def push_def)

lemma venue_rule_d1:
  "v \<noteq> [] \<Longrightarrow> falsy_count (venueCounts s) v \<Longrightarrow>
     d1VenuesSeen (venue_rule ''D1'' v s) = set_add v (d1VenuesSeen s)
     \<and> d1VenueCount (venue_rule ''D1'' v s) =
         (if v \<in> set (d1VenuesSeen s) then d1VenueCount s else d1VenueCount s + 1)"
  by (simp add: venue_rule_def venue_new_def push_def Let_def set_add_def)

text \<open>
  C10. A game whose \<^verbatim>\<open>Division\<close> field is missing or empty is processed exactly as
  the same game marked \<^verbatim>\<open>D1\<close>: the count of top-division games goes up by one, a
  \<^verbatim>\<open>d1-game\<close> badge is emitted when the new count is in \<^verbatim>\<open>D1_MILESTONES\<close>, and a
  venue with no visit on record enters the top-division venue tracking.
\<close>

theorem missing_division_is_d1:
  assumes "Division g = None \<or> Division g = Some []"
  shows "process_game d i g s = process_game d i (g\<lparr>Division := Some ''D1''\<rparr>) s
    \<and> d1GameCount (process_game d i g s) = d1GameCount s + 1
    \<and> of_type ''d1-game'' (badges (process_game d i g s)) =
        (if d1GameCount s + 1 \<in> set D1_MILESTONES then [D1Game (d1GameCount s + 1)] else [])
    \<and> (or_str (Venue g) [] \<noteq> [] \<and> falsy_count (venueCounts s) (or_str (Venue g) []) \<longrightarrow>
          d1VenuesSeen (process_game d i g s) = set_add (or_str (Venue g) []) (d1VenuesSeen s)
          \<and> d1VenueCount (process_game d i g s) =
              (if or_str (Venue g) [] \<in> set (d1VenuesSeen s) then d1VenueCount s
               else d1VenueCount s + 1))"
proof -
  have dv: "or_str (Division g) ''D1'' = ''D1''"
    using assms by (auto simp: or_str_def)
  have "process_game d i (g\<lparr>Division := Some ''D1''\<rparr>) s = process_game d i g s"
    by (rule process_game_Division) (simp add: or_str_def dv [unfolded or_str_def])
  then show ?thesis
    using venue_rule_d1 [of "or_str (Venue g) []" "before_venue d g s"]
    by (simp add: process_game_d1 dv process_game_venue_aux before_venue_fields)
qed

theorem missing_division_is_d1_witness:
  "process_game (no_tables []) 0 hall_game init_state
     = process_game (no_tables []) 0 (hall_game\<lparr>Division := Some ''D1''\<rparr>) init_state
   \<and> d1GameCount (process_game (no_tables []) 0 hall_game init_state) = d1GameCount init_state + 1"
proof -
  have h: "Division hall_game = None \<or> Division hall_game = Some []"
    by code_simp
  show ?thesis
    using missing_division_is_d1 [OF h] by blast
qed

subsection \<open>Transfer detection\<close>

text \<open>
  The seeding loop is only reached with a truthy \<open>playerId\<close>, and then the name branch
  of its test is dead: a record counts only if its \<^verbatim>\<open>player_id\<close> equals the key.
\<close>

lemma name_never_consulted:
  "truthy playerId \<Longrightarrow>
     hasPlayerAtSchoolBefore d playerId playerName currentDateSort prevSchool =
       list_ex (\<lambda>pg2. pg_player_id pg2 = playerId \<and> pg_team pg2 = Some prevSchool
                  \<and> str_less (or_str (pg_date_yyyymmdd pg2) []) currentDateSort)
         (playerGames d)"
  by (simp add: hasPlayerAtSchoolBefore_def)

text \<open>
  C8 (the code falls short of the claim). The appearance at Beta carries no id, so its key
  is the player's name. An appearance record of the same name shows the player at Alpha a
  year earlier, and Alpha is a listed previous school: by the claim the known schools are
  seeded with Alpha and the game carries a transfer badge. The code compares the key
  with \<^verbatim>\<open>player_id\<close> only, seeds nothing, and emits no transfer badge.
\<close>

theorem transfer_seed_ignores_name:
  "seed_schools pat_games (Some ''Pat Smith'') (Some ''Pat Smith'') ''20241101'' [''Alpha''] = []
   \<and> of_type ''transfer'' (all_badges (milestone_entries pat_games)) = []
   \<and> known_schools (badgeTrackingData pat_games) ''Pat Smith'' = [''Beta'']"
  by code_simp

subsection \<open>Badges that are emitted at most once\<close>

lemma process_game_rules:
  "process_game d i g s = fold (\<lambda>r. r) (game_rules d i g) (clear_badges s)"
  by (simp add: process_game_def game_rules_def clear_badges_def Let_def)

lemma once_step_fold:
  assumes "\<And>r. r \<in> set rs \<Longrightarrow> once_step I P F r" and "I s"
  shows "I (fold (\<lambda>r. r) rs s) \<and> (F s \<longrightarrow> F (fold (\<lambda>r. r) rs s))
     \<and> (filter P (badges (fold (\<lambda>r. r) rs s)) = filter P (badges s)
         \<or> (\<not> F s \<and> F (fold (\<lambda>r. r) rs s)
             \<and> length (filter P (badges (fold (\<lambda>r. r) rs s))) = Suc (length (filter P (badges s)))))"
  using assms
proof (induction rs arbitrary: s)
  case Nil
  then show ?case by simp
next
  case (Cons r rs)
  have r: "once_step I P F r" using Cons.prems(1) by simp
  have one: "I (r s)" "F s \<longrightarrow> F (r s)"
    "filter P (badges (r s)) = filter P (badges s)
       \<or> (\<not> F s \<and> F (r s) \<and> length (filter P (badges (r s))) = Suc (length (filter P (badges s))))"
    using r Cons.prems(2) by (auto simp: once_step_def)
  have rest: "I (fold (\<lambda>r. r) rs (r s)) \<and> (F (r s) \<longrightarrow> F (fold (\<lambda>r. r) rs (r s)))
     \<and> (filter P (badges (fold (\<lambda>r. r) rs (r s))) = filter P (badges (r s))
         \<or> (\<not> F (r s) \<and> F (fold (\<lambda>r. r) rs (r s))
             \<and> length (filter P (badges (fold (\<lambda>r. r) rs (r s)))) = Suc (length (filter P (badges (r s))))))"
    using Cons.IH [OF _ one(1)] Cons.prems(1) by simp
  show ?case
    using one rest by auto
qed

lemma once_step_game:
  assumes rules: "\<And>r. r \<in> set (game_rules d i g) \<Longrightarrow> once_step I P F r"
    and clr: "I (clear_badges s) = I s" "F (clear_badges s) = F s"
    and "I s"
  shows "I (process_game d i g s) \<and> (F s \<longrightarrow> F (process_game d i g s))
     \<and> (filter P (badges (process_game d i g s)) = []
         \<or> (\<not> F s \<and> F (process_game d i g s)
             \<and> length (filter P (badges (process_game d i g s))) = 1))"
proof -
  have "I (clear_badges s)" using assms by simp
  from once_step_fold [OF rules this, of "game_rules d i g"]
  show ?thesis
    unfolding process_game_rules using clr by (simp add: clear_badges_def)
qed

lemma all_badges_Cons: "all_badges (e # es) = entry_badges e @ all_badges es"
  by (simp add: all_badges_def)

lemma once_over_run:
  assumes step: "\<And>i g s. I s \<Longrightarrow>
      I (process_game d i g s) \<and> (F s \<longrightarrow> F (process_game d i g s))
      \<and> (filter P (badges (process_game d i g s)) = []
          \<or> (\<not> F s \<and> F (process_game d i g s)
              \<and> length (filter P (badges (process_game d i g s))) = 1))"
    and "I s"
  shows "length (filter P (all_badges (run_entries d i gs s))) \<le> (if F s then 0 else 1)"
  using \<open>I s\<close>
proof (induction gs arbitrary: i s)
  case Nil
  then show ?case by (simp add: all_badges_def)
next
  case (Cons g gs)
  let ?s = "process_game d i g s"
  have st: "I ?s" "F s \<longrightarrow> F ?s"
    "filter P (badges ?s) = [] \<or> (\<not> F s \<and> F ?s \<and> length (filter P (badges ?s)) = 1)"
    using step [OF Cons.prems] by auto
  have ih: "length (filter P (all_badges (run_entries d (i + 1) gs ?s))) \<le> (if F ?s then 0 else 1)"
    using Cons.IH [OF st(1)] .
  have "length (filter P (all_badges (run_entries d i (g # gs) s)))
          = length (filter P (badges ?s)) + length (filter P (all_badges (run_entries d (i + 1) gs ?s)))"
    by (simp add: Let_def all_badges_Cons entry_badges_def)
  then show ?case
    using st ih by (auto split: if_splits)
qed

lemma typed_filter_cong:
  assumes "\<And>b. P b \<Longrightarrow> badge_type b = ty" and "of_type ty xs = of_type ty ys"
  shows "filter P xs = filter P ys"
proof -
  have "filter P zs = filter P (of_type ty zs)" for zs
    using assms(1) by (induction zs) (auto simp: of_type_def)
  then show ?thesis using assms(2) by metis
qed

lemma once_step_neutral:
  assumes "\<And>b. P b \<Longrightarrow> badge_type b = ty"
    and "\<And>s. of_type ty (badges (r s)) = of_type ty (badges s)"
    and "\<And>s. F (r s) = F s" and "\<And>s. I (r s) = I s"
  shows "once_step I P F r"
  using typed_filter_cong [OF assms(1) assms(2)] assms(3,4) by (simp add: once_step_def)

lemma is_new_state_type: "is_new_state st b \<Longrightarrow> badge_type b = ''new-state''"
  by (cases b) simp_all

lemma is_new_team_type: "is_new_team tm g b \<Longrightarrow> badge_type b = ''new-team''"
  by (cases b) simp_all

lemma is_new_conf_type: "is_new_conf c b \<Longrightarrow> badge_type b = ''new-conf''"
  by (cases b) simp_all

lemma is_new_matchup_type: "is_new_matchup x y g b \<Longrightarrow> badge_type b = ''new-matchup''"
  by (cases b) simp_all

lemma is_conf_complete_type: "is_conf_complete c g b \<Longrightarrow> badge_type b = ''conf-complete''"
  by (cases b) simp_all

lemma sentinel_complete_type: "sentinel_complete b \<Longrightarrow> badge_type b = ''conf-complete''"
  by (cases b) simp_all

lemma unfounded_complete_type: "unfounded_complete d b \<Longrightarrow> badge_type b = ''conf-complete''"
  by (cases b) simp_all

lemma code_unit_compare_flip: "code_unit_compare b a = - code_unit_compare a b"
  by (induction a b rule: code_unit_compare.induct) auto

lemma code_unit_compare_zero: "code_unit_compare a b = 0 \<Longrightarrow> a = b"
  by (induction a b rule: code_unit_compare.induct) (auto split: if_splits)

lemma sorted_pair_key_commute: "sorted_pair_key a b = sorted_pair_key b a"
proof -
  have "code_unit_compare a b = 0 \<Longrightarrow> a = b" by (rule code_unit_compare_zero)
  then show ?thesis
    using code_unit_compare_flip [of a b]
    by (auto simp: sorted_pair_key_def str_less_def)
qed

lemma inherited_no_bar: "inherited k \<Longrightarrow> CHR ''|'' \<notin> set k"
  by (auto simp add: inherited_def proto_members_def)

lemma key_plain [simp]:
  "\<not> inherited (a @ CHR ''|'' # b)" "a @ CHR ''|'' # b \<noteq> ''__proto__''"
proof -
  show n: "\<not> inherited (a @ CHR ''|'' # b)"
    using inherited_no_bar [of "a @ CHR ''|'' # b"] by auto
  show "a @ CHR ''|'' # b \<noteq> ''__proto__''"
    using n inherited_proto by metis
qed

lemma assign_other [simp]: "k' \<noteq> k \<Longrightarrow> assign m k' v k = m k"
  by (simp add: assign_def)

lemma increment_other [simp]: "k' \<noteq> k \<Longrightarrow> increment m k' k = m k"
  by (simp add: increment_def)

lemma falsy_count_cong: "m k = m' k \<Longrightarrow> falsy_count m k = falsy_count m' k"
  by (simp add: falsy_count_def)

lemma fresh_counted:
  assumes "\<not> inherited k"
  shows "\<not> falsy_count (increment (assign m k (Num 0)) k) k"
  using not_inherited_proto [OF assms]
  by (simp add: falsy_count_def assign_def increment_def)

lemma counted_stays:
  assumes "\<not> inherited k" "\<not> falsy_count m k"
  shows "\<not> falsy_count (increment m k) k"
proof (cases "m k")
  case None
  then show ?thesis
    using assms by (simp add: falsy_count_def)
next
  case (Some x)
  then show ?thesis
    using assms not_inherited_proto [OF assms(1)]
    by (cases x) (simp_all add: falsy_count_def assign_def increment_def)
qed

lemma key_inj:
  "a @ CHR ''|'' # gender_str g = b @ CHR ''|'' # gender_str h \<longleftrightarrow> a = b \<and> g = h"
  by (cases g; cases h; simp)

lemma state_rule_once:
  "once_step (\<lambda>s. True) (is_new_state st) (\<lambda>s. st \<in> set (statesSeen s)) (state_rule st')"
  by (auto simp: once_step_def state_rule_def push_def set_add_def Let_def)

lemma team_rule_once:
  "once_step (\<lambda>s. True) (is_new_team tm g)
     (\<lambda>s. \<not> falsy_count (teamCounts s) (tm @ ''|'' @ gender_str g)) (team_rule d gm g' t)"
proof (cases "t = [] \<or> t @ CHR ''|'' # gender_str g' \<noteq> tm @ CHR ''|'' # gender_str g")
  case True
  then show ?thesis
    by (auto simp: once_step_def team_rule_def team_new_def team_record_def push_def Let_def
          key_inj falsy_count_cong [of "increment _ _" _ "teamCounts _"]
          falsy_count_cong [of "assign _ _ _" _ "teamCounts _"]
          split: prod.splits)
next
  case False
  then have e: "t = tm" "g' = g" "t \<noteq> []"
    by (simp_all add: key_inj)
  have n: "\<not> falsy_count (teamCounts (team_rule d gm g tm s)) (tm @ CHR ''|'' # gender_str g)" for s
    using e(3) unfolding e
    by (simp add: team_rule_def team_new_def team_record_def push_def Let_def fresh_counted
          counted_stays split: prod.splits)
  have b: "filter (is_new_team tm g) (badges (team_rule d gm g tm s)) =
             filter (is_new_team tm g) (badges s)
               @ (if falsy_count (teamCounts s) (tm @ CHR ''|'' # gender_str g)
                  then [NewTeam tm g] else [])" for s
    using e(3) unfolding e
    by (simp add: team_rule_def team_new_def team_record_def push_def Let_def split: prod.splits)
  show ?thesis
    unfolding e once_step_def using n b by simp
qed

lemma matchup_rule_once:
  "once_step (\<lambda>s. True) (is_new_matchup x y g)
     (\<lambda>s. sorted_pair_key x y @ ''|'' @ gender_str g \<in> matchupsSeen s) (matchup_rule g' a h)"
  using sorted_pair_key_commute [of x y]
  by (auto simp: once_step_def matchup_rule_def push_def Let_def)

lemma conf_rule_complete_once:
  "once_step (\<lambda>s. True) (is_conf_complete c g)
     (\<lambda>s. c @ ''|'' @ gender_str g \<in> confCompleted s) (conf_rule d g' conf t)"
  by (auto simp: once_step_def conf_rule_def conf_seen_def push_def Let_def)

lemma conferenceTeamCounts_fold_sentinel:
  "sentinel c \<Longrightarrow>
     fold (\<lambda>(confName, confData) m.
             if sentinel confName then m else assign m confName (cd_totalTeams confData)) xs m0 c
       = m0 c"
proof (induction xs arbitrary: m0)
  case Nil
  then show ?case by simp
next
  case (Cons x xs)
  obtain n cd where x: "x = (n, cd)" by (cases x)
  show ?case
    using Cons.prems Cons.IH [OF Cons.prems, of "assign m0 n (cd_totalTeams cd)"]
      Cons.IH [OF Cons.prems, of m0]
    by (cases "sentinel n") (auto simp add: x assign_def)
qed

lemma conferenceTeamCounts_sentinel: "sentinel c \<Longrightarrow> count_of (conferenceTeamCounts d) c = 0"
  by (simp add: conferenceTeamCounts_def conferenceTeamCounts_fold_sentinel count_of_def)

lemma conf_rule_other:
  assumes "conf \<noteq> c"
  shows "confTeamCounts (conf_rule d g' conf t s) c = confTeamCounts s c"
    "conf_seen (conf_rule d g' conf t s) (c @ CHR ''|'' # gender_str g) =
       conf_seen s (c @ CHR ''|'' # gender_str g)"
    "filter (is_new_conf c) (badges (conf_rule d g' conf t s)) = filter (is_new_conf c) (badges s)"
proof -
  have k: "c @ CHR ''|'' # gender_str g \<noteq> conf @ CHR ''|'' # gender_str g'"
    using assms by (simp add: key_inj)
  show "confTeamCounts (conf_rule d g' conf t s) c = confTeamCounts s c"
    using assms by (simp add: conf_rule_def push_def Let_def)
  show "conf_seen (conf_rule d g' conf t s) (c @ CHR ''|'' # gender_str g) =
       conf_seen s (c @ CHR ''|'' # gender_str g)"
    using k by (simp add: conf_rule_def conf_seen_def push_def Let_def)
  show "filter (is_new_conf c) (badges (conf_rule d g' conf t s)) = filter (is_new_conf c) (badges s)"
    using assms by (simp add: conf_rule_def push_def Let_def)
qed

lemma conf_rule_new_conf_once:
  assumes p: "\<not> inherited c"
  shows "once_step (conf_inv c) (is_new_conf c) (\<lambda>s. \<not> falsy_count (confTeamCounts s) c)
     (conf_rule d g' conf t)"
proof (cases "conf = c")
  case True
  have "conf_inv c (conf_rule d g' c t s) \<and>
        (\<not> falsy_count (confTeamCounts s) c \<longrightarrow>
           \<not> falsy_count (confTeamCounts (conf_rule d g' c t s)) c) \<and>
        (filter (is_new_conf c) (badges (conf_rule d g' c t s)) = filter (is_new_conf c) (badges s)
         \<or> (\<not> \<not> falsy_count (confTeamCounts s) c
             \<and> \<not> falsy_count (confTeamCounts (conf_rule d g' c t s)) c
             \<and> length (filter (is_new_conf c) (badges (conf_rule d g' c t s)))
                 = Suc (length (filter (is_new_conf c) (badges s)))))"
    if inv: "conf_inv c s" for s
  proof (cases "c = [] \<or> c = ''Historical/Other''")
    case True
    then show ?thesis using inv by (auto simp: conf_rule_def)
  next
    case False
    have inv': "falsy_count (confTeamCounts s) c \<Longrightarrow> conf_seen s (c @ CHR ''|'' # gender_str g') = []"
      using inv unfolding conf_inv_def by auto
    have cnt: "confTeamCounts (conf_rule d g' c t s) =
        (if t \<notin> set (conf_seen s (c @ CHR ''|'' # gender_str g'))
         then increment (if falsy_count (confTeamCounts s) c
                         then assign (confTeamCounts s) c (Num 0) else confTeamCounts s) c
         else (if falsy_count (confTeamCounts s) c
               then assign (confTeamCounts s) c (Num 0) else confTeamCounts s))"
      using False by (simp add: conf_rule_def push_def Let_def)
    have bd: "filter (is_new_conf c) (badges (conf_rule d g' c t s)) =
        filter (is_new_conf c) (badges s)
          @ (if falsy_count (confTeamCounts s) c then [NewConf c] else [])"
      using False by (simp add: conf_rule_def push_def Let_def)
    have after: "\<not> falsy_count (confTeamCounts (conf_rule d g' c t s)) c"
    proof (cases "falsy_count (confTeamCounts s) c")
      case True
      then have "t \<notin> set (conf_seen s (c @ CHR ''|'' # gender_str g'))"
        using inv' by simp
      then show ?thesis
        using True fresh_counted [OF p, of "confTeamCounts s"] by (simp add: cnt)
    next
      case False
      then show ?thesis
        using counted_stays [OF p False] by (simp add: cnt)
    qed
    have "conf_inv c (conf_rule d g' c t s)"
      using after by (simp add: conf_inv_def)
    then show ?thesis
      using after bd by simp
  qed
  then show ?thesis
    unfolding True once_step_def by blast
next
  case False
  then show ?thesis
    by (simp add: once_step_def conf_inv_def conf_rule_other
          falsy_count_cong [of "confTeamCounts (conf_rule _ _ _ _ _)" _ "confTeamCounts _"])
qed

lemma conf_rule_never_historical:
  "once_step (\<lambda>s. True) (is_new_conf ''Historical/Other'') (\<lambda>s. True) (conf_rule d g' conf t)"
  by (auto simp: once_step_def conf_rule_def push_def Let_def)

lemma conf_rule_never_sentinel_complete:
  "once_step (\<lambda>s. True) sentinel_complete (\<lambda>s. True) (conf_rule d g' conf t)"
  using conferenceTeamCounts_sentinel [of conf d]
  by (auto simp: once_step_def conf_rule_def push_def Let_def)

lemma conf_rule_never_unfounded:
  "once_step (\<lambda>s. True) (unfounded_complete d) (\<lambda>s. True) (conf_rule d g' conf t)"
  by (auto simp: once_step_def conf_rule_def push_def Let_def)

text \<open>Each rule of the loop body, for each kind of badge that is emitted at most once.\<close>

lemma new_state_rules:
  assumes "r \<in> set (game_rules d i g)"
  shows "once_step (\<lambda>s. True) (is_new_state st) (\<lambda>s. st \<in> set (statesSeen s)) r"
  using assms
  apply (simp only: game_rules_def list.set insert_iff empty_iff simp_thms)
  apply (elim disjE; hypsubst)
  apply (rule state_rule_once
      | (rule once_step_neutral [where ty = "''new-state''", OF is_new_state_type]; simp))+
  done

lemma new_team_rules:
  assumes "r \<in> set (game_rules d i g)"
  shows "once_step (\<lambda>s. True) (is_new_team tm gd)
           (\<lambda>s. \<not> falsy_count (teamCounts s) (tm @ ''|'' @ gender_str gd)) r"
  using assms
  apply (simp only: game_rules_def list.set insert_iff empty_iff simp_thms)
  apply (elim disjE; hypsubst)
  apply (rule team_rule_once
      | (rule once_step_neutral [where ty = "''new-team''", OF is_new_team_type]; simp))+
  done

lemma new_matchup_rules:
  assumes "r \<in> set (game_rules d i g)"
  shows "once_step (\<lambda>s. True) (is_new_matchup x y gd)
           (\<lambda>s. sorted_pair_key x y @ ''|'' @ gender_str gd \<in> matchupsSeen s) r"
  using assms
  apply (simp only: game_rules_def list.set insert_iff empty_iff simp_thms)
  apply (elim disjE; hypsubst)
  apply (rule matchup_rule_once
      | (rule once_step_neutral [where ty = "''new-matchup''", OF is_new_matchup_type]; simp))+
  done

lemma new_conf_rules:
  assumes "r \<in> set (game_rules d i g)" and p: "\<not> inherited c"
  shows "once_step (conf_inv c) (is_new_conf c) (\<lambda>s. \<not> falsy_count (confTeamCounts s) c) r"
  using assms
  apply (simp only: game_rules_def list.set insert_iff empty_iff simp_thms)
  apply (elim disjE; hypsubst)
  apply (rule conf_rule_new_conf_once [OF p]
      | (rule once_step_neutral [where ty = "''new-conf''", OF is_new_conf_type];
         simp add: conf_inv_def conf_seen_def))+
  done

lemma conf_complete_rules:
  assumes "r \<in> set (game_rules d i g)"
  shows "once_step (\<lambda>s. True) (is_conf_complete c gd)
           (\<lambda>s. c @ ''|'' @ gender_str gd \<in> confCompleted s) r"
  using assms
  apply (simp only: game_rules_def list.set insert_iff empty_iff simp_thms)
  apply (elim disjE; hypsubst)
  apply (rule conf_rule_complete_once
      | (rule once_step_neutral [where ty = "''conf-complete''", OF is_conf_complete_type]; simp))+
  done

lemma never_historical_rules:
  assumes "r \<in> set (game_rules d i g)"
  shows "once_step (\<lambda>s. True) (is_new_conf ''Historical/Other'') (\<lambda>s. True) r"
  using assms
  apply (simp only: game_rules_def list.set insert_iff empty_iff simp_thms)
  apply (elim disjE; hypsubst)
  apply (rule conf_rule_never_historical
      | (rule once_step_neutral [where ty = "''new-conf''", OF is_new_conf_type]; simp))+
  done

lemma never_sentinel_complete_rules:
  assumes "r \<in> set (game_rules d i g)"
  shows "once_step (\<lambda>s. True) sentinel_complete (\<lambda>s. True) r"
  using assms
  apply (simp only: game_rules_def list.set insert_iff empty_iff simp_thms)
  apply (elim disjE; hypsubst)
  apply (rule conf_rule_never_sentinel_complete
      | (rule once_step_neutral [where ty = "''conf-complete''", OF sentinel_complete_type]; simp))+
  done

lemma never_unfounded_rules:
  assumes "r \<in> set (game_rules d i g)"
  shows "once_step (\<lambda>s. True) (unfounded_complete d) (\<lambda>s. True) r"
  using assms
  apply (simp only: game_rules_def list.set insert_iff empty_iff simp_thms)
  apply (elim disjE; hypsubst)
  apply (rule conf_rule_never_unfounded
      | (rule once_step_neutral [where ty = "''conf-complete''", OF unfounded_complete_type]; simp))+
  done

lemma clear_badges_fields [simp]:
  "statesSeen (clear_badges s) = statesSeen s"
  "teamCounts (clear_badges s) = teamCounts s"
  "matchupsSeen (clear_badges s) = matchupsSeen s"
  "confTeamCounts (clear_badges s) = confTeamCounts s"
  "confTeamsSeen (clear_badges s) = confTeamsSeen s"
  "confCompleted (clear_badges s) = confCompleted s"
  by (simp_all add: clear_badges_def)

lemma conf_inv_clear: "conf_inv c (clear_badges s) = conf_inv c s"
  by (simp add: conf_inv_def conf_seen_def)

lemma conf_inv_init: "conf_inv c init_state"
  by (simp add: conf_inv_def conf_seen_def init_state_def)

lemma new_state_once: "count_badges (is_new_state st) (run_entries d i gs s) \<le> 1"
proof -
  have "length (filter (is_new_state st) (all_badges (run_entries d i gs s)))
          \<le> (if st \<in> set (statesSeen s) then 0 else 1)"
    by (rule once_over_run [where I = "\<lambda>s. True"])
       (rule once_step_game [OF new_state_rules], simp_all)
  then show ?thesis by (simp add: count_badges_def split: if_splits)
qed

lemma new_team_once: "count_badges (is_new_team tm gd) (run_entries d i gs s) \<le> 1"
proof -
  have "length (filter (is_new_team tm gd) (all_badges (run_entries d i gs s)))
          \<le> (if \<not> falsy_count (teamCounts s) (tm @ ''|'' @ gender_str gd) then 0 else 1)"
    by (rule once_over_run [where I = "\<lambda>s. True"])
       (rule once_step_game [OF new_team_rules], simp_all)
  then show ?thesis by (simp add: count_badges_def split: if_splits)
qed

lemma new_matchup_once: "count_badges (is_new_matchup x y gd) (run_entries d i gs s) \<le> 1"
proof -
  have "length (filter (is_new_matchup x y gd) (all_badges (run_entries d i gs s)))
          \<le> (if sorted_pair_key x y @ ''|'' @ gender_str gd \<in> matchupsSeen s then 0 else 1)"
    by (rule once_over_run [where I = "\<lambda>s. True"])
       (rule once_step_game [OF new_matchup_rules], simp_all)
  then show ?thesis by (simp add: count_badges_def split: if_splits)
qed

lemma new_conf_once:
  assumes "conf_inv c s" and p: "\<not> inherited c"
  shows "count_badges (is_new_conf c) (run_entries d i gs s) \<le> 1"
proof -
  have "length (filter (is_new_conf c) (all_badges (run_entries d i gs s)))
          \<le> (if \<not> falsy_count (confTeamCounts s) c then 0 else 1)"
    by (rule once_over_run [where I = "conf_inv c", OF _ assms(1)])
       (rule once_step_game [OF new_conf_rules [OF _ p]], simp_all add: conf_inv_clear)
  then show ?thesis by (simp add: count_badges_def split: if_splits)
qed

lemma conf_complete_once: "count_badges (is_conf_complete c gd) (run_entries d i gs s) \<le> 1"
proof -
  have "length (filter (is_conf_complete c gd) (all_badges (run_entries d i gs s)))
          \<le> (if c @ ''|'' @ gender_str gd \<in> confCompleted s then 0 else 1)"
    by (rule once_over_run [where I = "\<lambda>s. True"])
       (rule once_step_game [OF conf_complete_rules], simp_all)
  then show ?thesis by (simp add: count_badges_def split: if_splits)
qed

lemma never_over_run:
  assumes "\<And>i g r. r \<in> set (game_rules d i g) \<Longrightarrow> once_step (\<lambda>s. True) P (\<lambda>s. True) r"
  shows "filter P (all_badges (run_entries d i gs s)) = []"
proof -
  have "length (filter P (all_badges (run_entries d i gs s))) \<le> (if True then 0 else 1)"
    by (rule once_over_run [where I = "\<lambda>s. True" and F = "\<lambda>s. True"])
       (rule once_step_game [OF assms], simp_all)
  then show ?thesis by simp
qed

lemma never_historical: "filter (is_new_conf ''Historical/Other'') (all_badges (run_entries d i gs s)) = []"
  by (rule never_over_run) (rule never_historical_rules)

lemma never_sentinel_complete: "filter sentinel_complete (all_badges (run_entries d i gs s)) = []"
  by (rule never_over_run) (rule never_sentinel_complete_rules)

lemma never_unfounded: "filter (unfounded_complete d) (all_badges (run_entries d i gs s)) = []"
  by (rule never_over_run) (rule never_unfounded_rules)

subsection \<open>Sentinel conferences\<close>

text \<open>
  C7 (as stated, refuted). Elon is listed only under \<^verbatim>\<open>All D1\<close>, so its conference
  resolves to that name and the game carries a \<^verbatim>\<open>new-conf\<close> badge for \<^verbatim>\<open>All D1\<close>; the
  conference-matchup rule has no exclusion at all, so both sentinel names appear in
  \<^verbatim>\<open>conf-matchup\<close> badges.
\<close>

theorem sentinel_badges_emitted:
  "of_type ''new-conf'' (all_badges (milestone_entries sentinel_games))
     = [NewConf ''ACC'', NewConf ''All D1'']
   \<and> of_type ''conf-matchup'' (all_badges (milestone_entries sentinel_games))
     = [ConfMatchup ''ACC'' ''All D1'', ConfMatchup ''ACC'' ''Historical/Other'']"
  by code_simp

lemma conferenceTeamCounts_sentinel_None: "sentinel c \<Longrightarrow> conferenceTeamCounts d c = None"
  by (simp add: conferenceTeamCounts_def conferenceTeamCounts_fold_sentinel)

text \<open>
  C7 (amended). Over any stream, no \<^verbatim>\<open>new-conf\<close> badge is emitted for
  \<^verbatim>\<open>Historical/Other\<close> and no \<^verbatim>\<open>conf-complete\<close> badge is emitted for either sentinel
  name; both names are left out of \<^verbatim>\<open>conferenceTeamCounts\<close>; the conference rule skips a
  side whose conference is \<^verbatim>\<open>Historical/Other\<close> or empty, and conference-venue tracking
  skips a home conference that is \<^verbatim>\<open>Historical/Other\<close> or empty.
\<close>

theorem sentinels_excluded:
  "filter (is_new_conf ''Historical/Other'') (all_badges (run_entries d i gs s)) = []
   \<and> filter sentinel_complete (all_badges (run_entries d i gs s)) = []
   \<and> conferenceTeamCounts d ''All D1'' = None
   \<and> conferenceTeamCounts d ''Historical/Other'' = None
   \<and> conf_rule d g ''Historical/Other'' tm s = s
   \<and> conf_rule d g [] tm s = s
   \<and> conf_venue_rule v ''Historical/Other'' s = s
   \<and> conf_venue_rule v [] s = s"
  by (simp add: never_historical never_sentinel_complete conferenceTeamCounts_sentinel_None
        sentinel_def conf_rule_def conf_venue_rule_def)

theorem sentinels_excluded_witness:
  "filter (is_new_conf ''Historical/Other'') (all_badges (milestone_entries sentinel_games)) = []
   \<and> filter sentinel_complete (all_badges (milestone_entries sentinel_games)) = []"
  using sentinels_excluded [of sentinel_games 0
      "sort_games (localeCompare sentinel_games) (games sentinel_games)" init_state]
  by (simp add: milestone_entries_def)

subsection \<open>New badges\<close>

text \<open>
  C5 (the code falls short of the claim). The away side of all three games is the same
  team, of a conference named \<^verbatim>\<open>constructor\<close>. The rule keeps its counters in a
  plain object and tests \<^verbatim>\<open>!confTeamCounts[conf]\<close>: the first game reads the
  inherited member, emits nothing and leaves \<^verbatim>\<open>NaN\<close> as the counter; the second
  game finds it falsy, emits the badge and resets the counter to 0, where it stays
  because the team is not new; the third game finds 0 and emits the badge again.
\<close>

theorem new_conf_badge_twice:
  "of_type ''new-conf'' (entry_badges (milestone_entries constructor_conf_games ! 0)) = []
   \<and> of_type ''new-conf'' (entry_badges (milestone_entries constructor_conf_games ! 1))
       = [NewConf ''constructor'']
   \<and> of_type ''new-conf'' (entry_badges (milestone_entries constructor_conf_games ! 2))
       = [NewConf ''constructor'']
   \<and> count_badges (is_new_conf ''constructor'') (milestone_entries constructor_conf_games) = 2"
  by code_simp

text \<open>
  For every other key the badges are emitted at most once, as the claim says. Over the
  whole processed stream there is at most one \<^verbatim>\<open>new-state\<close>
  badge for a state, at most one \<^verbatim>\<open>new-team\<close> badge for a team name and gender, at
  most one \<^verbatim>\<open>new-matchup\<close> badge for an unordered pair of team names and a gender, and
  at most one \<^verbatim>\<open>new-conf\<close> badge for a conference name that is not the name of a
  member of \<^verbatim>\<open>Object.prototype\<close>.
\<close>

theorem new_badges_once:
  "count_badges (is_new_state st) (run_entries d 0 gs init_state) \<le> 1
   \<and> count_badges (is_new_team tm g) (run_entries d 0 gs init_state) \<le> 1
   \<and> (\<not> inherited c \<longrightarrow> count_badges (is_new_conf c) (run_entries d 0 gs init_state) \<le> 1)
   \<and> count_badges (is_new_matchup x y g) (run_entries d 0 gs init_state) \<le> 1"
  using new_conf_once [OF conf_inv_init, of c d 0 gs] new_state_once [of st d 0 gs init_state]
    new_team_once [of tm g d 0 gs init_state] new_matchup_once [of x y g d 0 gs init_state]
  by blast

theorem new_badges_once_witness:
  "count_badges (is_new_team ''TeamX'' Men) (milestone_entries (scenario Men)) \<le> 1
   \<and> count_badges (is_new_matchup ''TeamY'' ''TeamX'' Men) (milestone_entries (scenario Men)) \<le> 1
   \<and> count_badges (is_new_conf ''ACC'') (milestone_entries sentinel_games) \<le> 1"
proof -
  have p: "\<not> inherited ''ACC''"
    by code_simp
  have a: "count_badges (is_new_team ''TeamX'' Men) (milestone_entries (scenario Men)) \<le> 1
   \<and> count_badges (is_new_matchup ''TeamY'' ''TeamX'' Men) (milestone_entries (scenario Men)) \<le> 1"
    using new_badges_once [of _ "scenario Men"
        "sort_games (localeCompare (scenario Men)) (games (scenario Men))" "''TeamX''" Men _
        "''TeamY''" "''TeamX''"]
    by (simp add: milestone_entries_def)
  have b: "count_badges (is_new_conf ''ACC'') (milestone_entries sentinel_games) \<le> 1"
    using new_badges_once [of _ sentinel_games
        "sort_games (localeCompare sentinel_games) (games sentinel_games)" _ _ "''ACC''"] p
    by (simp add: milestone_entries_def)
  show ?thesis
    using a b by simp
qed

subsection \<open>Conference completion\<close>

lemma is_conf_complete_of_type:
  "filter (is_conf_complete c g) bs = filter (is_conf_complete c g) (of_type ''conf-complete'' bs)"
  by (induction bs) (auto dest: is_conf_complete_type)

lemma conf_rule_complete_badge:
  "of_type ''conf-complete'' (badges (conf_rule d g conf t s)) =
     of_type ''conf-complete'' (badges s) @
     (if conf \<noteq> [] \<and> conf \<noteq> ''Historical/Other''
         \<and> 0 < count_of (conferenceTeamCounts d) conf
         \<and> count_of (conferenceTeamCounts d) conf
             \<le> length (set_add t (conf_seen s (conf @ CHR ''|'' # gender_str g)))
         \<and> conf @ CHR ''|'' # gender_str g \<notin> confCompleted s
      then [ConfComplete conf g (count_of (conferenceTeamCounts d) conf)] else [])"
  by (simp add: conf_rule_def conf_seen_def push_def Let_def)

lemma conf_rule_same:
  assumes "c \<noteq> []" "c \<noteq> ''Historical/Other''"
  shows "conf_seen (conf_rule d g c t s) (c @ CHR ''|'' # gender_str g) =
           set_add t (conf_seen s (c @ CHR ''|'' # gender_str g))"
    "(c @ CHR ''|'' # gender_str g \<in> confCompleted (conf_rule d g c t s)) =
       (c @ CHR ''|'' # gender_str g \<in> confCompleted s
        \<or> (0 < count_of (conferenceTeamCounts d) c
            \<and> count_of (conferenceTeamCounts d) c
                \<le> length (set_add t (conf_seen s (c @ CHR ''|'' # gender_str g)))))"
  using assms by (auto simp: conf_rule_def conf_seen_def push_def Let_def)

lemma conf_rule_other_completed:
  assumes "conf \<noteq> c"
  shows "(c @ CHR ''|'' # gender_str g \<in> confCompleted (conf_rule d g' conf t s)) =
           (c @ CHR ''|'' # gender_str g \<in> confCompleted s)"
  using assms by (simp add: conf_rule_def push_def Let_def key_inj)

lemma before_conf_fields:
  "confTeamsSeen (before_conf d g s) = confTeamsSeen s"
  "confCompleted (before_conf d g s) = confCompleted s"
  "of_type ''conf-complete'' (badges (before_conf d g s)) = []"
  by (simp_all add: before_conf_def before_venue_def before_streak_def)

lemma conf_seen_before_conf: "conf_seen (before_conf d g s) k = conf_seen s k"
  by (simp add: conf_seen_def before_conf_fields)

lemma process_game_conf_aux:
  "confTeamsSeen (process_game d i g s) = confTeamsSeen (after_conf d g s)"
  "confCompleted (process_game d i g s) = confCompleted (after_conf d g s)"
  "of_type ''conf-complete'' (badges (process_game d i g s)) =
     of_type ''conf-complete'' (badges (after_conf d g s))"
  by (simp_all add: process_game_def Let_def after_conf_def before_conf_def before_venue_def
        before_streak_def)

lemma conf_game_step:
  assumes g: "or_gender (Gender x) = g" and a: "conf_text d (getGameConference_away d x) = c"
    and h: "conf_text d (getGameConference_home d x) \<noteq> c"
    and c: "c \<noteq> []" "c \<noteq> ''Historical/Other''"
  shows "conf_seen (process_game d i x s) (c @ CHR ''|'' # gender_str g) =
           set_add (or_str (AwayTeam x) []) (conf_seen s (c @ CHR ''|'' # gender_str g))"
    "(c @ CHR ''|'' # gender_str g \<in> confCompleted (process_game d i x s)) =
       (c @ CHR ''|'' # gender_str g \<in> confCompleted s
        \<or> (0 < count_of (conferenceTeamCounts d) c
            \<and> count_of (conferenceTeamCounts d) c
                \<le> length (set_add (or_str (AwayTeam x) [])
                             (conf_seen s (c @ CHR ''|'' # gender_str g)))))"
    "filter (is_conf_complete c g) (badges (process_game d i x s)) =
       (if 0 < count_of (conferenceTeamCounts d) c
           \<and> count_of (conferenceTeamCounts d) c
               \<le> length (set_add (or_str (AwayTeam x) [])
                            (conf_seen s (c @ CHR ''|'' # gender_str g)))
           \<and> c @ CHR ''|'' # gender_str g \<notin> confCompleted s
        then [ConfComplete c g (count_of (conferenceTeamCounts d) c)] else [])"
proof -
  have seen: "conf_seen (process_game d i x s) k = conf_seen (after_conf d x s) k" for k
    by (simp add: conf_seen_def process_game_conf_aux)
  show "conf_seen (process_game d i x s) (c @ CHR ''|'' # gender_str g) =
           set_add (or_str (AwayTeam x) []) (conf_seen s (c @ CHR ''|'' # gender_str g))"
    unfolding seen after_conf_def g a
    using h c by (simp add: conf_rule_other(2) conf_rule_same(1) conf_seen_before_conf)
  show "(c @ CHR ''|'' # gender_str g \<in> confCompleted (process_game d i x s)) =
       (c @ CHR ''|'' # gender_str g \<in> confCompleted s
        \<or> (0 < count_of (conferenceTeamCounts d) c
            \<and> count_of (conferenceTeamCounts d) c
                \<le> length (set_add (or_str (AwayTeam x) [])
                             (conf_seen s (c @ CHR ''|'' # gender_str g)))))"
    unfolding process_game_conf_aux after_conf_def g a
    using h c
    by (simp add: conf_rule_other_completed conf_rule_same(2) conf_seen_before_conf
          before_conf_fields)
  show "filter (is_conf_complete c g) (badges (process_game d i x s)) =
       (if 0 < count_of (conferenceTeamCounts d) c
           \<and> count_of (conferenceTeamCounts d) c
               \<le> length (set_add (or_str (AwayTeam x) [])
                            (conf_seen s (c @ CHR ''|'' # gender_str g)))
           \<and> c @ CHR ''|'' # gender_str g \<notin> confCompleted s
        then [ConfComplete c g (count_of (conferenceTeamCounts d) c)] else [])"
    apply (subst is_conf_complete_of_type)
    unfolding process_game_conf_aux after_conf_def g a
    using h c
    by (simp add: conf_rule_complete_badge conf_seen_before_conf before_conf_fields)
qed

lemma conf_rule_seen_other:
  assumes "conf @ CHR ''|'' # gender_str g' \<noteq> k"
  shows "conf_seen (conf_rule d g' conf t s) k = conf_seen s k"
  using assms by (simp add: conf_rule_def conf_seen_def push_def Let_def)

lemma conf_game_other_gender:
  assumes "or_gender (Gender x) \<noteq> g"
  shows "conf_seen (process_game d i x s) (c @ CHR ''|'' # gender_str g) =
           conf_seen s (c @ CHR ''|'' # gender_str g)"
proof -
  have seen: "conf_seen (process_game d i x s) k = conf_seen (after_conf d x s) k" for k
    by (simp add: conf_seen_def process_game_conf_aux)
  show ?thesis
    unfolding seen after_conf_def
    using assms by (simp add: conf_rule_seen_other key_inj conf_seen_before_conf)
qed

lemma other_gender_differs: "g \<noteq> other_gender g"
  by (cases g) (simp_all add: other_gender_def)

lemma conferenceTeamCounts_fold_absent:
  "c \<notin> fst ` set xs \<Longrightarrow>
     fold (\<lambda>(confName, confData) m.
             if sentinel confName then m else assign m confName (cd_totalTeams confData)) xs m0 c
       = m0 c"
proof (induction xs arbitrary: m0)
  case Nil
  then show ?case by simp
next
  case (Cons x xs)
  obtain n cd where x: "x = (n, cd)" by (cases x)
  have "n \<noteq> c" and "c \<notin> fst ` set xs"
    using Cons.prems by (auto simp add: x)
  then show ?case
    using Cons.IH [of "assign m0 n (cd_totalTeams cd)"] Cons.IH [of m0]
    by (simp add: x)
qed

text \<open>
  The table \<^verbatim>\<open>conferenceTeamCounts\<close> holds the total of every conference of the roster
  but the two sentinel names and the name \<^verbatim>\<open>__proto__\<close>.
\<close>

lemma conferenceTeamCounts_roster:
  assumes "distinct (map fst xs)" "(c, cd) \<in> set xs" "\<not> sentinel c" "c \<noteq> ''__proto__''"
  shows "fold (\<lambda>(confName, confData) m.
             if sentinel confName then m else assign m confName (cd_totalTeams confData)) xs m0 c
       = Some (cd_totalTeams cd)"
  using assms(1,2)
proof (induction xs arbitrary: m0)
  case Nil
  then show ?case by simp
next
  case (Cons x xs)
  obtain n cd' where x: "x = (n, cd')" by (cases x)
  show ?case
  proof (cases "(c, cd) \<in> set xs")
    case True
    then show ?thesis
      using Cons.IH [of "assign m0 n (cd_totalTeams cd')"] Cons.IH [of m0] Cons.prems
      by (simp add: x)
  next
    case False
    then have e: "n = c" "cd' = cd" and a: "c \<notin> fst ` set xs"
      using Cons.prems by (auto simp add: x)
    show ?thesis
      using assms(3,4) a by (simp add: x e conferenceTeamCounts_fold_absent assign_def)
  qed
qed

lemma conferenceTeamCounts_entry:
  assumes "distinct (map fst (conferenceChecklist d))" "(c, cd) \<in> set (conferenceChecklist d)"
    and "\<not> sentinel c" "c \<noteq> ''__proto__''"
  shows "count_of (conferenceTeamCounts d) c = cd_totalTeams cd"
  using conferenceTeamCounts_roster [OF assms, of Map.empty]
  by (simp add: conferenceTeamCounts_def count_of_def)

lemma conferenceTeamCounts_fold_proto:
  "m0 ''__proto__'' = None \<Longrightarrow>
     fold (\<lambda>(confName, confData) m.
             if sentinel confName then m else assign m confName (cd_totalTeams confData)) xs m0
       ''__proto__'' = None"
proof (induction xs arbitrary: m0)
  case Nil
  then show ?case by simp
next
  case (Cons x xs)
  obtain n cd where x: "x = (n, cd)" by (cases x)
  have "assign m0 n (cd_totalTeams cd) ''__proto__'' = None"
    using Cons.prems by (simp add: assign_def)
  then show ?case
    using Cons.IH [of "assign m0 n (cd_totalTeams cd)"] Cons.IH [of m0] Cons.prems
    by (simp add: x)
qed

lemma conferenceTeamCounts_proto: "conferenceTeamCounts d ''__proto__'' = None"
  by (simp add: conferenceTeamCounts_def conferenceTeamCounts_fold_proto)

text \<open>
  C6 (the code falls short of the claim). The roster gives the conference named
  \<^verbatim>\<open>__proto__\<close> three members, and four games bring them in. The totals are kept
  in a plain object, and assigning a total to \<^verbatim>\<open>conferenceTeamCounts['__proto__']\<close>
  stores nothing, so the total that the rule reads is not a positive number: the
  seen-set reaches all three members and no game carries a \<^verbatim>\<open>conf-complete\<close> badge.
\<close>

theorem proto_conference_never_complete:
  "map fst (conferenceChecklist proto_data) = [''__proto__'']
   \<and> cd_totalTeams (snd (hd (conferenceChecklist proto_data))) = 3
   \<and> conf_text proto_data (getGameConference_away proto_data (games proto_data ! 3))
       = ''__proto__''
   \<and> conf_seen (badgeTrackingData proto_data) ''__proto__|W'' = [''Brown'', ''Yale'', ''Penn'']
   \<and> of_type ''conf-complete'' (all_badges (milestone_entries proto_data)) = []
   \<and> runs_through proto_data"
  by code_simp

text \<open>
  For every conference whose total the table holds, completion is as the claim says.
  Let \<^verbatim>\<open>conferenceTeamCounts\<close>, the table that the engine builds from the roster, hold
  the total 3 for the conference \<open>c\<close>, in a pass that runs through.
  Four games of one gender whose away sides belong to \<open>c\<close> and are the teams \<open>A\<close>,
  \<open>A\<close>, \<open>B\<close>, \<open>C\<close>, all distinct, and whose home sides are not in \<open>c\<close>: the
  \<^verbatim>\<open>conf-complete\<close> badge is on the fourth game and on no earlier one; the second
  game, which shows \<open>A\<close> again, leaves the set of teams seen at \<open>[A]\<close>; after the four
  games the set is \<open>[A, B, C]\<close> for the gender of the games and empty for the other
  gender. Over any stream a \<^verbatim>\<open>conf-complete\<close> badge is emitted at most once for a
  conference and gender, and every such badge shows the positive total that the table
  holds for its conference.
\<close>

theorem conf_completion_exact:
  assumes run: "runs_through d"
    and tot: "count_of (conferenceTeamCounts d) c = 3"
    and c: "c \<noteq> []"
    and side: "\<forall>x \<in> set [x1, x2, x3, x4].
                 or_gender (Gender x) = g \<and> conf_text d (getGameConference_away d x) = c
                 \<and> conf_text d (getGameConference_home d x) \<noteq> c"
    and teams: "map (\<lambda>x. or_str (AwayTeam x) []) [x1, x2, x3, x4] = [A, A, B, C]"
    and dist: "distinct [A, B, C]"
  shows "map (\<lambda>e. filter (is_conf_complete c g) (entry_badges e))
             (run_entries d 0 [x1, x2, x3, x4] init_state)
           = [[], [], [], [ConfComplete c g 3]]
     \<and> conf_seen (run_state d 0 [x1] init_state) (c @ ''|'' @ gender_str g) = [A]
     \<and> conf_seen (run_state d 0 [x1, x2] init_state) (c @ ''|'' @ gender_str g) = [A]
     \<and> conf_seen (run_state d 0 [x1, x2, x3, x4] init_state) (c @ ''|'' @ gender_str g)
         = [A, B, C]
     \<and> conf_seen (run_state d 0 [x1, x2, x3, x4] init_state)
          (c @ ''|'' @ gender_str (other_gender g)) = []
     \<and> count_badges (is_conf_complete c' g') (run_entries d' 0 gs init_state) \<le> 1
     \<and> filter (unfounded_complete d') (all_badges (run_entries d' 0 gs init_state)) = []"
proof -
  let ?k = "c @ CHR ''|'' # gender_str g"
  let ?o = "c @ CHR ''|'' # gender_str (other_gender g)"
  define s1 where "s1 = process_game d 0 x1 init_state"
  define s2 where "s2 = process_game d (Suc 0) x2 s1"
  define s3 where "s3 = process_game d (Suc (Suc 0)) x3 s2"
  define s4 where "s4 = process_game d (Suc (Suc (Suc 0))) x4 s3"
  have c2: "c \<noteq> ''Historical/Other''"
    using tot conferenceTeamCounts_sentinel [of c d] by (auto simp add: sentinel_def)
  note cc = c c2
  have i0: "conf_seen init_state ?k = []" "?k \<notin> confCompleted init_state"
    "conf_seen init_state ?o = []"
    by (simp_all add: conf_seen_def init_state_def)
  have t: "or_str (AwayTeam x1) [] = A" "or_str (AwayTeam x2) [] = A"
    "or_str (AwayTeam x3) [] = B" "or_str (AwayTeam x4) [] = C"
    using teams by simp_all
  have st1: "or_gender (Gender x1) = g" "conf_text d (getGameConference_away d x1) = c"
    "conf_text d (getGameConference_home d x1) \<noteq> c" using side by simp_all
  have st2: "or_gender (Gender x2) = g" "conf_text d (getGameConference_away d x2) = c"
    "conf_text d (getGameConference_home d x2) \<noteq> c" using side by simp_all
  have st3: "or_gender (Gender x3) = g" "conf_text d (getGameConference_away d x3) = c"
    "conf_text d (getGameConference_home d x3) \<noteq> c" using side by simp_all
  have st4: "or_gender (Gender x4) = g" "conf_text d (getGameConference_away d x4) = c"
    "conf_text d (getGameConference_home d x4) \<noteq> c" using side by simp_all
  have dn: "A \<noteq> B" "B \<noteq> A" "A \<noteq> C" "C \<noteq> A" "B \<noteq> C" "C \<noteq> B"
    using dist by auto
  note step1 = conf_game_step [OF st1 cc, of 0 init_state]
  have a1: "conf_seen s1 ?k = [A]" "?k \<notin> confCompleted s1"
    "filter (is_conf_complete c g) (badges s1) = []"
    unfolding s1_def step1 using i0 tot t by (simp_all add: set_add_def)
  note step2 = conf_game_step [OF st2 cc, of "Suc 0" s1]
  have a2: "conf_seen s2 ?k = [A]" "?k \<notin> confCompleted s2"
    "filter (is_conf_complete c g) (badges s2) = []"
    unfolding s2_def step2 using a1 tot t by (simp_all add: set_add_def)
  note step3 = conf_game_step [OF st3 cc, of "Suc (Suc 0)" s2]
  have a3: "conf_seen s3 ?k = [A, B]" "?k \<notin> confCompleted s3"
    "filter (is_conf_complete c g) (badges s3) = []"
    unfolding s3_def step3 using a2 tot t dn by (simp_all add: set_add_def)
  note step4 = conf_game_step [OF st4 cc, of "Suc (Suc (Suc 0))" s3]
  have a4: "filter (is_conf_complete c g) (badges s4) = [ConfComplete c g 3]"
    "conf_seen s4 ?k = [A, B, C]"
    unfolding s4_def step4 using a3 tot t dn by (simp_all add: set_add_def)
  have og: "or_gender (Gender x1) \<noteq> other_gender g" "or_gender (Gender x2) \<noteq> other_gender g"
    "or_gender (Gender x3) \<noteq> other_gender g" "or_gender (Gender x4) \<noteq> other_gender g"
    using st1(1) st2(1) st3(1) st4(1) other_gender_differs [of g] by simp_all
  have o4: "conf_seen s4 ?o = []"
    unfolding s4_def s3_def s2_def s1_def
    by (simp only: conf_game_other_gender [OF og(1)] conf_game_other_gender [OF og(2)]
          conf_game_other_gender [OF og(3)] conf_game_other_gender [OF og(4)] i0)
  have "map (\<lambda>e. filter (is_conf_complete c g) (entry_badges e))
             (run_entries d 0 [x1, x2, x3, x4] init_state)
          = [filter (is_conf_complete c g) (badges s1), filter (is_conf_complete c g) (badges s2),
             filter (is_conf_complete c g) (badges s3), filter (is_conf_complete c g) (badges s4)]"
    by (simp add: Let_def entry_badges_def s1_def s2_def s3_def s4_def)
  then have scen: "map (\<lambda>e. filter (is_conf_complete c g) (entry_badges e))
             (run_entries d 0 [x1, x2, x3, x4] init_state)
           = [[], [], [], [ConfComplete c g 3]]"
    using a1 a2 a3 a4 by simp
  have r1: "conf_seen (run_state d 0 [x1] init_state) (c @ ''|'' @ gender_str g) = [A]"
    using a1(1) by (simp add: s1_def)
  have r2: "conf_seen (run_state d 0 [x1, x2] init_state) (c @ ''|'' @ gender_str g) = [A]"
    using a2(1) by (simp add: s1_def s2_def)
  have r4: "conf_seen (run_state d 0 [x1, x2, x3, x4] init_state) (c @ ''|'' @ gender_str g)
              = [A, B, C]"
    using a4(2) by (simp add: s1_def s2_def s3_def s4_def)
  have r5: "conf_seen (run_state d 0 [x1, x2, x3, x4] init_state)
              (c @ ''|'' @ gender_str (other_gender g)) = []"
    using o4 by (simp add: s1_def s2_def s3_def s4_def)
  show ?thesis
    using scen r1 r2 r4 r5 conf_complete_once [of c' g' d' 0 gs init_state]
      never_unfounded [of d' 0 gs init_state]
    by blast
qed

theorem conf_completion_exact_witness:
  "map (\<lambda>e. filter (is_conf_complete ''Ivy'' Women) (entry_badges e))
       (run_entries ivy_data 0 ivy_games init_state)
     = [[], [], [], [ConfComplete ''Ivy'' Women 3]]"
proof -
  have run: "runs_through ivy_data"
    by code_simp
  have tot: "count_of (conferenceTeamCounts ivy_data) ''Ivy'' = 3"
    by code_simp
  have c: "''Ivy'' \<noteq> []"
    by simp
  have side: "\<forall>x \<in> set [ivy_games ! 0, ivy_games ! 1, ivy_games ! 2, ivy_games ! 3].
                 or_gender (Gender x) = Women
                 \<and> conf_text ivy_data (getGameConference_away ivy_data x) = ''Ivy''
                 \<and> conf_text ivy_data (getGameConference_home ivy_data x) \<noteq> ''Ivy''"
    by code_simp
  have teams: "map (\<lambda>x. or_str (AwayTeam x) [])
                 [ivy_games ! 0, ivy_games ! 1, ivy_games ! 2, ivy_games ! 3]
               = [''Brown'', ''Brown'', ''Yale'', ''Penn'']"
    by code_simp
  have dist: "distinct [''Brown'', ''Yale'', ''Penn'']"
    by simp
  have l: "ivy_games = [ivy_games ! 0, ivy_games ! 1, ivy_games ! 2, ivy_games ! 3]"
    by (simp add: ivy_games_def)
  show ?thesis
    by (subst l) (rule conjunct1 [OF conf_completion_exact [OF run tot c side teams dist]])
qed

subsection \<open>The order of the stream\<close>

text \<open>
  C1 (as stated, refuted). The tip-off time is skipped when one of the two games has
  none, which makes the order of the four keys cyclic on these three games of one day:
  the first precedes the second by gender, the second precedes the third by id, the
  third precedes the first by time, and none of the three holds the other way round;
  the comparator of the sort is negative on each of the three pairs. So no arrangement
  of the three games has every pair in order, whatever arrangement the sort of the host
  returns. The keys compared are strings of digits, which every
  collation orders as their code units.
\<close>

theorem no_order_respects_keys:
  "game_cmp code_unit_compare (cyclic_games ! 0) (cyclic_games ! 1) < 0
   \<and> game_cmp code_unit_compare (cyclic_games ! 1) (cyclic_games ! 2) < 0
   \<and> game_cmp code_unit_compare (cyclic_games ! 2) (cyclic_games ! 0) < 0
   \<and> precedes code_unit_compare (cyclic_games ! 0) (cyclic_games ! 1)
   \<and> \<not> precedes code_unit_compare (cyclic_games ! 1) (cyclic_games ! 0)
   \<and> precedes code_unit_compare (cyclic_games ! 1) (cyclic_games ! 2)
   \<and> \<not> precedes code_unit_compare (cyclic_games ! 2) (cyclic_games ! 1)
   \<and> precedes code_unit_compare (cyclic_games ! 2) (cyclic_games ! 0)
   \<and> \<not> precedes code_unit_compare (cyclic_games ! 0) (cyclic_games ! 2)
   \<and> \<not> in_order code_unit_compare [cyclic_games ! 0, cyclic_games ! 1, cyclic_games ! 2]
   \<and> \<not> in_order code_unit_compare [cyclic_games ! 0, cyclic_games ! 2, cyclic_games ! 1]
   \<and> \<not> in_order code_unit_compare [cyclic_games ! 1, cyclic_games ! 0, cyclic_games ! 2]
   \<and> \<not> in_order code_unit_compare [cyclic_games ! 1, cyclic_games ! 2, cyclic_games ! 0]
   \<and> \<not> in_order code_unit_compare [cyclic_games ! 2, cyclic_games ! 0, cyclic_games ! 1]
   \<and> \<not> in_order code_unit_compare [cyclic_games ! 2, cyclic_games ! 1, cyclic_games ! 0]"
  by code_simp

text \<open>The comparator of the sort is at most 0 exactly when the keys are in order.\<close>

lemma game_cmp_precedes: "game_cmp lc a b \<le> 0 \<longleftrightarrow> precedes lc a b"
  by (auto simp add: game_cmp_def precedes_def Let_def)

lemma opposite_signs_zero:
  assumes "opposite_signs lc" "lc x y = 0"
  shows "lc y x = 0"
proof -
  have "\<not> lc y x < 0" "\<not> 0 < lc y x"
    using assms unfolding opposite_signs_def by (metis less_irrefl)+
  then show ?thesis by simp
qed

lemma opposite_signs_le:
  assumes "opposite_signs lc"
  shows "lc x y \<le> 0 \<or> lc y x \<le> 0"
proof (cases "lc x y \<le> 0")
  case True
  then show ?thesis by simp
next
  case False
  then have "0 < lc x y" by simp
  then have "lc y x < 0"
    using assms unfolding opposite_signs_def by blast
  then show ?thesis by simp
qed

lemma gender_first: "x \<noteq> y \<Longrightarrow> x = Women \<or> y = Women" for x y :: gender
  by (cases x; cases y) simp_all

lemma precedes_total:
  assumes o: "opposite_signs lc"
  shows "precedes lc a b \<or> precedes lc b a"
proof -
  let ?da = "or_str (DateSort a) []" and ?db = "or_str (DateSort b) []"
  consider "lc ?da ?db < 0" | "0 < lc ?da ?db" | "lc ?da ?db = 0"
    by linarith
  then show ?thesis
  proof cases
    case 1
    then show ?thesis by (simp add: precedes_def)
  next
    case 2
    then have "lc ?db ?da < 0"
      using o unfolding opposite_signs_def by blast
    then show ?thesis by (simp add: precedes_def)
  next
    case 3
    have z: "lc ?db ?da = 0"
      using opposite_signs_zero [OF o 3] .
    show ?thesis
      using 3 z opposite_signs_le [OF o, of "or_str (TimeSort a) []" "or_str (TimeSort b) []"]
        opposite_signs_le [OF o, of "or_str (GameID a) []" "or_str (GameID b) []"]
        gender_first [of "or_gender (Gender a)" "or_gender (Gender b)"]
      by (auto simp add: precedes_def)
  qed
qed

lemma before_all_iff: "before_all lc g xs \<longleftrightarrow> (\<forall>y \<in> set xs. precedes lc g y)"
  by (induction xs) auto

lemma transitive_on_iff:
  "transitive_on lc gs \<longleftrightarrow>
     (\<forall>a \<in> set gs. \<forall>b \<in> set gs. \<forall>c \<in> set gs.
        precedes lc a b \<and> precedes lc b c \<longrightarrow> precedes lc a c)"
  by (simp add: transitive_on_def list_all_iff)

lemma set_insert_game: "set (insert_game lc g xs) = insert g (set xs)"
  by (induction xs) auto

lemma mset_insert_game: "mset (insert_game lc g xs) = add_mset g (mset xs)"
  by (induction xs) auto

lemma mset_sort_games: "mset (sort_games lc gs) = mset gs"
  by (induction gs) (simp_all add: mset_insert_game)

lemma set_sort_games: "set (sort_games lc gs) = set gs"
  using mset_sort_games [of lc gs] by (metis set_mset_mset)

lemma in_order_insert_game:
  assumes o: "opposite_signs lc" and tr: "transitive_on lc gs" and g: "g \<in> set gs"
  shows "set xs \<subseteq> set gs \<Longrightarrow> in_order lc xs \<Longrightarrow> in_order lc (insert_game lc g xs)"
proof (induction xs)
  case Nil
  then show ?case by simp
next
  case (Cons h hs)
  have h: "h \<in> set gs" and hs: "set hs \<subseteq> set gs"
    using Cons.prems(1) by auto
  have hord: "\<forall>y \<in> set hs. precedes lc h y" and ord: "in_order lc hs"
    using Cons.prems(2) by (auto simp: before_all_iff)
  show ?case
  proof (cases "precedes lc g h")
    case True
    have "precedes lc g y" if "y \<in> set hs" for y
      using tr g h hs that True hord unfolding transitive_on_iff by blast
    then show ?thesis
      using True Cons.prems(2) by (simp add: before_all_iff game_cmp_precedes)
  next
    case False
    then have "precedes lc h g"
      using precedes_total [OF o, of g h] by simp
    then have "\<forall>y \<in> set (insert_game lc g hs). precedes lc h y"
      using hord by (simp add: set_insert_game)
    then show ?thesis
      using False Cons.IH [OF hs ord] by (simp add: before_all_iff game_cmp_precedes)
  qed
qed

lemma in_order_sort_games:
  assumes "opposite_signs lc" "transitive_on lc gs"
  shows "set xs \<subseteq> set gs \<Longrightarrow> in_order lc (sort_games lc xs)"
proof (induction xs)
  case Nil
  then show ?case by simp
next
  case (Cons x xs)
  then show ?case
    using in_order_insert_game [OF assms, of x "sort_games lc xs"]
    by (simp add: set_sort_games)
qed

text \<open>Games that are in order already are left as they are.\<close>

lemma sort_games_in_order: "in_order lc gs \<Longrightarrow> sort_games lc gs = gs"
proof (induction gs)
  case Nil
  then show ?case by simp
next
  case (Cons g gs)
  then have s: "sort_games lc gs = gs" and b: "before_all lc g gs"
    by simp_all
  have "insert_game lc g gs = g # gs"
    using b by (cases gs) (simp_all add: game_cmp_precedes)
  then show ?case
    by (simp add: s)
qed

lemma run_entries_numbers:
  "map entry_number (run_entries d i gs s) = [Suc i ..< Suc (i + length gs)]"
proof (induction gs arbitrary: i s)
  case Nil
  show ?case by simp
next
  case (Cons g gs)
  have "[Suc i ..< Suc (i + length (g # gs))] = Suc i # [Suc (Suc i) ..< Suc (Suc i + length gs)]"
    by (subst upt_rec) simp
  then show ?case
    using Cons.IH [of "i + 1"] by (simp add: Let_def entry_number_def)
qed

lemma run_entries_ids:
  "map entry_id (run_entries d i gs s) = map (\<lambda>(k, g). gameId_of k g) (enumerate i gs)"
  by (induction gs arbitrary: i s) (simp_all add: Let_def entry_id_def)

text \<open>
  C1 (amended). Let the collation of the host give opposite signs to the two orders of
  a pair of strings, let the order of the four keys be transitive on the games of the
  input, and let the pass run through. Then the comparator of the sort puts a game
  before or level with another exactly when the first precedes the second by the four
  keys: the date; then the tip-off time, when both games have one and the two differ;
  then the gender, women first; then the id. The processed stream is a rearrangement of
  the input in which every earlier game precedes every later one in this order. An input that is in this order already is processed
  as it stands. The game at position \<open>k\<close> of the stream, from 0, has \<^verbatim>\<open>gameNumber\<close>
  \<open>k + 1\<close>, and its entry is under its id, or under \<^verbatim>\<open>game-k\<close> when it has none.
\<close>

theorem sorted_stream:
  assumes "opposite_signs (localeCompare d)"
    and "transitive_on (localeCompare d) (games d)"
    and "runs_through d"
  shows "(game_cmp (localeCompare d) a b \<le> 0) = precedes (localeCompare d) a b
    \<and> mset (sort_games (localeCompare d) (games d)) = mset (games d)
    \<and> in_order (localeCompare d) (sort_games (localeCompare d) (games d))
    \<and> (in_order (localeCompare d) (games d) \<longrightarrow>
          sort_games (localeCompare d) (games d) = games d)
    \<and> map entry_number (milestone_entries d) = [1 ..< Suc (length (games d))]
    \<and> map entry_id (milestone_entries d)
        = map (\<lambda>(k, g). gameId_of k g) (enumerate 0 (sort_games (localeCompare d) (games d)))"
proof -
  have "length (sort_games (localeCompare d) (games d)) = length (games d)"
    using mset_sort_games [of "localeCompare d" "games d"] by (metis size_mset)
  then show ?thesis
    using in_order_sort_games [OF assms(1,2), of "games d"]
    by (simp add: mset_sort_games milestone_entries_def run_entries_numbers run_entries_ids
          sort_games_in_order game_cmp_precedes)
qed

theorem sorted_stream_witness:
  "in_order (localeCompare (scenario Women))
      (sort_games (localeCompare (scenario Women)) (games (scenario Women)))
   \<and> sort_games (localeCompare (scenario Women)) (games (scenario Women))
       = games (scenario Women)
   \<and> map entry_number (milestone_entries (scenario Women)) = [1, 2, 3]"
proof -
  have lc: "localeCompare (scenario Women) = code_unit_compare"
    by (simp add: scenario_def no_tables_def)
  have h0: "opposite_signs (localeCompare (scenario Women))"
    unfolding lc opposite_signs_def
  proof (intro allI)
    fix x y
    show "(code_unit_compare x y < 0) = (0 < code_unit_compare y x)"
      using code_unit_compare_flip [of x y] by simp
  qed
  have h1: "transitive_on (localeCompare (scenario Women)) (games (scenario Women))"
    by code_simp
  have h2: "runs_through (scenario Women)"
    by code_simp
  have h3: "in_order (localeCompare (scenario Women)) (games (scenario Women))"
    by code_simp
  have l: "length (games (scenario Women)) = 3"
    by code_simp
  show ?thesis
    using sorted_stream [OF h0 h1 h2] h3 by (simp add: l upt_conv_Cons)
qed

lemma code_unit_compare_refl: "code_unit_compare a a = 0"
  by (induction a) simp_all

lemma code_unit_compare_less_Cons:
  "code_unit_compare (x # xs) (y # ys) < 0 \<longleftrightarrow>
     (of_char x :: nat) < of_char y \<or> (x = y \<and> code_unit_compare xs ys < 0)"
proof (cases "(of_char x :: nat) < of_char y")
  case True
  then show ?thesis by simp
next
  case False
  show ?thesis
  proof (cases "(of_char y :: nat) < of_char x")
    case True
    then show ?thesis using False by auto
  next
    case nlt: False
    then have "(of_char x :: nat) = of_char y" using False by simp
    then have "x = y" by simp
    then show ?thesis by simp
  qed
qed

lemma code_unit_compare_less_Nil:
  "code_unit_compare [] ys < 0 \<longleftrightarrow> ys \<noteq> []" "\<not> code_unit_compare xs [] < 0"
  by (cases ys; simp) (cases xs; simp)

lemma code_unit_compare_less_trans:
  "code_unit_compare a b < 0 \<Longrightarrow> code_unit_compare b c < 0 \<Longrightarrow> code_unit_compare a c < 0"
proof (induction a arbitrary: b c)
  case Nil
  then show ?case
    by (cases c) (simp_all add: code_unit_compare_less_Nil)
next
  case (Cons x xs)
  obtain y ys where b: "b = y # ys"
    using Cons.prems(1) by (cases b) (simp_all add: code_unit_compare_less_Nil)
  obtain z zs where c: "c = z # zs"
    using Cons.prems(2) b by (cases c) (simp_all add: code_unit_compare_less_Nil)
  have 1: "(of_char x :: nat) < of_char y \<or> (x = y \<and> code_unit_compare xs ys < 0)"
    using Cons.prems(1) unfolding b code_unit_compare_less_Cons .
  have 2: "(of_char y :: nat) < of_char z \<or> (y = z \<and> code_unit_compare ys zs < 0)"
    using Cons.prems(2) unfolding b c code_unit_compare_less_Cons .
  have "(of_char x :: nat) < of_char z \<or> (x = z \<and> code_unit_compare xs zs < 0)"
    using 1 2 Cons.IH [of ys zs] by auto
  then show ?case
    unfolding c code_unit_compare_less_Cons .
qed

lemma code_unit_compare_cases:
  "code_unit_compare a b < 0 \<or> a = b \<or> code_unit_compare b a < 0"
  using code_unit_compare_flip [of a b] code_unit_compare_zero [of a b] by linarith

lemma code_unit_compare_le_iff: "code_unit_compare a b \<le> 0 \<longleftrightarrow> code_unit_compare a b < 0 \<or> a = b"
  using code_unit_compare_zero [of a b] code_unit_compare_refl [of a]
  by (cases "code_unit_compare a b = 0") auto

text \<open>
  Under the order of code units, the order of the four keys is transitive when all
  games, or no games, have a tip-off time.
\<close>

lemma women_first: "x \<noteq> y \<Longrightarrow> (x = Women) = (x = Women \<and> y = Men)" for x y :: gender
  by (cases x; cases y) simp_all

lemma game_cmp_tail:
  "(if or_gender (Gender a) \<noteq> or_gender (Gender b)
    then (if or_gender (Gender a) = Women then - 1 else 1)
    else code_unit_compare (or_str (GameID a) []) (or_str (GameID b) [])) \<le> (0::int) \<longleftrightarrow>
   (or_gender (Gender a) = Women \<and> or_gender (Gender b) = Men)
   \<or> (or_gender (Gender a) = or_gender (Gender b)
       \<and> (code_unit_compare (or_str (GameID a) []) (or_str (GameID b) []) < 0
           \<or> or_str (GameID a) [] = or_str (GameID b) []))"
proof (cases "or_gender (Gender a) = or_gender (Gender b)")
  case True
  then show ?thesis by (auto simp: code_unit_compare_le_iff)
next
  case False
  then show ?thesis using women_first [OF False] by auto
qed

lemma game_cmp_timed:
  assumes "or_str (TimeSort a) [] \<noteq> []" "or_str (TimeSort b) [] \<noteq> []"
  shows "game_cmp code_unit_compare a b \<le> 0 \<longleftrightarrow>
    code_unit_compare (or_str (DateSort a) []) (or_str (DateSort b) []) < 0
    \<or> (or_str (DateSort a) [] = or_str (DateSort b) []
        \<and> (code_unit_compare (or_str (TimeSort a) []) (or_str (TimeSort b) []) < 0
            \<or> (or_str (TimeSort a) [] = or_str (TimeSort b) []
                \<and> ((or_gender (Gender a) = Women \<and> or_gender (Gender b) = Men)
                    \<or> (or_gender (Gender a) = or_gender (Gender b)
                        \<and> (code_unit_compare (or_str (GameID a) []) (or_str (GameID b) []) < 0
                            \<or> or_str (GameID a) [] = or_str (GameID b) []))))))"
proof (cases "code_unit_compare (or_str (DateSort a) []) (or_str (DateSort b) []) = 0")
  case False
  then have "or_str (DateSort a) [] \<noteq> or_str (DateSort b) []"
    using code_unit_compare_refl by metis
  then show ?thesis
    using False by (auto simp: game_cmp_def Let_def)
next
  case True
  then have d: "or_str (DateSort a) [] = or_str (DateSort b) []"
    by (rule code_unit_compare_zero)
  show ?thesis
  proof (cases "or_str (TimeSort a) [] = or_str (TimeSort b) []")
    case True
    then show ?thesis
      using d game_cmp_tail [of a b]
      by (simp add: game_cmp_def Let_def code_unit_compare_refl)
  next
    case False
    then have "code_unit_compare (or_str (TimeSort a) []) (or_str (TimeSort b) []) \<noteq> 0"
      using code_unit_compare_zero by blast
    then show ?thesis
      using d False assms by (auto simp: game_cmp_def Let_def code_unit_compare_refl)
  qed
qed

lemma game_cmp_untimed:
  assumes "or_str (TimeSort a) [] = []" "or_str (TimeSort b) [] = []"
  shows "game_cmp code_unit_compare a b \<le> 0 \<longleftrightarrow>
    code_unit_compare (or_str (DateSort a) []) (or_str (DateSort b) []) < 0
    \<or> (or_str (DateSort a) [] = or_str (DateSort b) []
        \<and> ((or_gender (Gender a) = Women \<and> or_gender (Gender b) = Men)
            \<or> (or_gender (Gender a) = or_gender (Gender b)
                \<and> (code_unit_compare (or_str (GameID a) []) (or_str (GameID b) []) < 0
                    \<or> or_str (GameID a) [] = or_str (GameID b) []))))"
proof (cases "code_unit_compare (or_str (DateSort a) []) (or_str (DateSort b) []) = 0")
  case False
  then have "or_str (DateSort a) [] \<noteq> or_str (DateSort b) []"
    using code_unit_compare_refl by metis
  then show ?thesis
    using False by (auto simp: game_cmp_def Let_def)
next
  case True
  then have d: "or_str (DateSort a) [] = or_str (DateSort b) []"
    by (rule code_unit_compare_zero)
  show ?thesis
    using d assms game_cmp_tail [of a b]
    by (simp add: game_cmp_def Let_def code_unit_compare_refl)
qed

lemma uniform_time_transitive: "uniform_time gs \<Longrightarrow> transitive_on code_unit_compare gs"
  unfolding uniform_time_def transitive_on_iff game_cmp_precedes [symmetric]
proof (elim disjE; intro ballI impI; elim conjE)
  fix a b c :: game
  define I where "I p q \<longleftrightarrow>
      code_unit_compare (or_str (GameID p) []) (or_str (GameID q) []) < 0
      \<or> or_str (GameID p) [] = or_str (GameID q) []" for p q :: game
  define G where "G p q \<longleftrightarrow>
      (or_gender (Gender p) = Women \<and> or_gender (Gender q) = Men)
      \<or> (or_gender (Gender p) = or_gender (Gender q) \<and> I p q)" for p q :: game
  define T where "T p q \<longleftrightarrow>
      code_unit_compare (or_str (TimeSort p) []) (or_str (TimeSort q) []) < 0
      \<or> (or_str (TimeSort p) [] = or_str (TimeSort q) [] \<and> G p q)" for p q :: game
  define D where "D p q \<longleftrightarrow>
      code_unit_compare (or_str (DateSort p) []) (or_str (DateSort q) []) < 0
      \<or> (or_str (DateSort p) [] = or_str (DateSort q) [] \<and> T p q)" for p q :: game
  have Itr: "I a b \<Longrightarrow> I b c \<Longrightarrow> I a c"
    unfolding I_def by (auto intro: code_unit_compare_less_trans)
  have Gtr: "G a b \<Longrightarrow> G b c \<Longrightarrow> G a c"
    unfolding G_def using Itr by (metis gender.distinct(1))
  have Ttr: "T a b \<Longrightarrow> T b c \<Longrightarrow> T a c"
    unfolding T_def using Gtr code_unit_compare_less_trans by metis
  have Dtr: "D a b \<Longrightarrow> D b c \<Longrightarrow> D a c"
    unfolding D_def using Ttr code_unit_compare_less_trans by metis
  assume t: "\<forall>g \<in> set gs. or_str (TimeSort g) [] \<noteq> []"
    and m: "a \<in> set gs" "b \<in> set gs" "c \<in> set gs"
    and ab: "game_cmp code_unit_compare a b \<le> 0" and bc: "game_cmp code_unit_compare b c \<le> 0"
  have ta: "or_str (TimeSort a) [] \<noteq> []" and tb: "or_str (TimeSort b) [] \<noteq> []"
    and tc: "or_str (TimeSort c) [] \<noteq> []"
    using t m by auto
  have "D a b" "D b c"
    using ab bc unfolding D_def T_def G_def I_def game_cmp_timed [OF ta tb] game_cmp_timed [OF tb tc]
    by blast+
  then have "D a c" by (rule Dtr)
  then show "game_cmp code_unit_compare a c \<le> 0"
    unfolding D_def T_def G_def I_def game_cmp_timed [OF ta tc] .
next
  fix a b c :: game
  define I where "I p q \<longleftrightarrow>
      code_unit_compare (or_str (GameID p) []) (or_str (GameID q) []) < 0
      \<or> or_str (GameID p) [] = or_str (GameID q) []" for p q :: game
  define G where "G p q \<longleftrightarrow>
      (or_gender (Gender p) = Women \<and> or_gender (Gender q) = Men)
      \<or> (or_gender (Gender p) = or_gender (Gender q) \<and> I p q)" for p q :: game
  define D where "D p q \<longleftrightarrow>
      code_unit_compare (or_str (DateSort p) []) (or_str (DateSort q) []) < 0
      \<or> (or_str (DateSort p) [] = or_str (DateSort q) [] \<and> G p q)" for p q :: game
  have Itr: "I a b \<Longrightarrow> I b c \<Longrightarrow> I a c"
    unfolding I_def by (auto intro: code_unit_compare_less_trans)
  have Gtr: "G a b \<Longrightarrow> G b c \<Longrightarrow> G a c"
    unfolding G_def using Itr by (metis gender.distinct(1))
  have Dtr: "D a b \<Longrightarrow> D b c \<Longrightarrow> D a c"
    unfolding D_def using Gtr code_unit_compare_less_trans by metis
  assume t: "\<forall>g \<in> set gs. or_str (TimeSort g) [] = []"
    and m: "a \<in> set gs" "b \<in> set gs" "c \<in> set gs"
    and ab: "game_cmp code_unit_compare a b \<le> 0" and bc: "game_cmp code_unit_compare b c \<le> 0"
  have ta: "or_str (TimeSort a) [] = []" and tb: "or_str (TimeSort b) [] = []"
    and tc: "or_str (TimeSort c) [] = []"
    using t m by auto
  have "D a b" "D b c"
    using ab bc unfolding D_def G_def I_def game_cmp_untimed [OF ta tb] game_cmp_untimed [OF tb tc]
    by blast+
  then have "D a c" by (rule Dtr)
  then show "game_cmp code_unit_compare a c \<le> 0"
    unfolding D_def G_def I_def game_cmp_untimed [OF ta tc] .
qed

end
